theory Spec2Isabelle
  imports Complex_Main
begin

section \<open>Outcomes and tensors\<close>

text \<open>
  The model follows \<^verbatim>\<open>former/modules.py\<close>.  Arithmetic is over the real numbers:
  rounding of the floating-point operations is not modelled, so an equation proved here
  holds for the code up to rounding.  The only non-finite value the code writes on purpose
  is the mask value \<^verbatim>\<open>float("-inf")\<close>; it is modelled by \<open>MInf\<close>.  Where the code would
  go on computing with NaN or an infinity (a division by zero), the model stops with
  the outcome \<open>NonFinite\<close>.

  A call either returns a value (\<open>Inr\<close>) or stops (\<open>Inl\<close>) with one of the outcomes below.
\<close>

datatype assert_id = EmbeddingDim | DotSize

datatype error =
    ValueError
  | IndexError
  | RuntimeError
  | ZeroDivisionError
  | AssertionError assert_id
  | NonFinite
  | Broadcast

definition andthen :: "'e + 'a \<Rightarrow> ('a \<Rightarrow> 'e + 'b) \<Rightarrow> 'e + 'b" where
  "andthen r f = (case r of Inl e \<Rightarrow> Inl e | Inr v \<Rightarrow> f v)"

text \<open>
  A tensor is contiguous storage in row-major order together with its shape descriptor.
\<close>

record 'a tensor =
  shape :: "nat list"
  data :: "'a list"

definition wf :: "'a tensor \<Rightarrow> bool" where
  "wf x \<longleftrightarrow> length (data x) = prod_list (shape x)"

text \<open>Row-major storage of an array given by its entries.\<close>

definition rows :: "nat \<Rightarrow> (nat \<Rightarrow> 'a list) \<Rightarrow> 'a list" where
  "rows n f = concat (map f [0..<n])"

definition tab2 :: "nat \<Rightarrow> nat \<Rightarrow> (nat \<Rightarrow> nat \<Rightarrow> 'a) \<Rightarrow> 'a list" where
  "tab2 n m f = rows n (\<lambda>i. map (f i) [0..<m])"

definition tab3 :: "nat \<Rightarrow> nat \<Rightarrow> nat \<Rightarrow> (nat \<Rightarrow> nat \<Rightarrow> nat \<Rightarrow> 'a) \<Rightarrow> 'a list" where
  "tab3 b t e f = rows b (\<lambda>i. tab2 t e (f i))"

definition tab4 ::
  "nat \<Rightarrow> nat \<Rightarrow> nat \<Rightarrow> nat \<Rightarrow> (nat \<Rightarrow> nat \<Rightarrow> nat \<Rightarrow> nat \<Rightarrow> 'a) \<Rightarrow> 'a list" where
  "tab4 a b c d f = rows a (\<lambda>i. tab3 b c d (f i))"

text \<open>Reading entry \<open>(i, j, k)\<close> of storage with row length \<open>e\<close> and \<open>t\<close> rows per slice.\<close>

definition at3 :: "nat \<Rightarrow> nat \<Rightarrow> 'a list \<Rightarrow> nat \<Rightarrow> nat \<Rightarrow> nat \<Rightarrow> 'a" where
  "at3 t e xs i j k = xs ! ((i * t + j) * e + k)"

section \<open>The tensor library\<close>

text \<open>
  \<^verbatim>\<open>tensor.view(*dims)\<close>: the same storage under a new shape.  A dimension \<open>-1\<close> is
  inferred from the others; the library refuses any other negative dimension, more than one
  \<open>-1\<close>, an inference that is ambiguous or not exact, and a shape whose number of
  elements differs from the storage.
\<close>

definition view :: "int list \<Rightarrow> 'a tensor \<Rightarrow> error + 'a tensor" where
  "view dims x =
    (let n = int (length (data x)) in
     if \<exists>d \<in> set dims. d < - 1 then Inl RuntimeError
     else if 1 < count_list dims (- 1) then Inl RuntimeError
     else if count_list dims (- 1) = 1 then
       (let q = prod_list (filter (\<lambda>d. d \<noteq> - 1) dims) in
        if q = 0 \<or> n mod q \<noteq> 0 then Inl RuntimeError
        else Inr \<lparr>shape = map (\<lambda>d. if d = - 1 then nat (n div q) else nat d) dims,
                  data = data x\<rparr>)
     else if prod_list dims \<noteq> n then Inl RuntimeError
     else Inr \<lparr>shape = map nat dims, data = data x\<rparr>)"

text \<open>
  \<^verbatim>\<open>tensor.transpose(1, 2)\<close>, made contiguous (by \<^verbatim>\<open>.contiguous()\<close>, or read by
  \<^verbatim>\<open>torch.bmm\<close>): dimensions 1 and 2 are exchanged, the trailing dimensions move as blocks.
\<close>

definition transpose12 :: "'a tensor \<Rightarrow> error + 'a tensor" where
  "transpose12 x =
    (case shape x of
       a # m # n # rest \<Rightarrow>
         (let q = prod_list rest in
          Inr \<lparr>shape = a # n # m # rest,
               data = tab4 a n m q (\<lambda>i k j r. data x ! (((i * m + j) * n + k) * q + r))\<rparr>)
     | _ \<Rightarrow> Inl IndexError)"

text \<open>\<^verbatim>\<open>tensor / c\<close> for a Python float \<open>c\<close>.\<close>

definition tdiv :: "real tensor \<Rightarrow> real \<Rightarrow> error + real tensor" where
  "tdiv x c =
    (if c = 0 \<and> data x \<noteq> [] then Inl NonFinite
     else Inr \<lparr>shape = shape x, data = map (\<lambda>v. v / c) (data x)\<rparr>)"

text \<open>\<^verbatim>\<open>torch.bmm\<close>: the batched matrix product of two 3-dimensional tensors.\<close>

definition bmm :: "real tensor \<Rightarrow> real tensor \<Rightarrow> error + real tensor" where
  "bmm x y =
    (case shape x of
       [n, t, e] \<Rightarrow>
         (case shape y of
            [n', e', u] \<Rightarrow>
              if n = n' \<and> e = e' then
                Inr \<lparr>shape = [n, t, u],
                     data = tab3 n t u
                       (\<lambda>i r c. \<Sum>k\<in>{0..<e}. at3 t e (data x) i r k * at3 e u (data y) i k c)\<rparr>
              else Inl RuntimeError
          | _ \<Rightarrow> Inl RuntimeError)
     | _ \<Rightarrow> Inl RuntimeError)"

text \<open>\<^verbatim>\<open>a + b\<close> for tensors of one shape.  For different shapes the library broadcasts
  or raises; the model does not follow that and stops with \<open>Broadcast\<close>.\<close>

definition tadd :: "real tensor \<Rightarrow> real tensor \<Rightarrow> error + real tensor" where
  "tadd x y =
    (if shape x = shape y then
       Inr \<lparr>shape = shape x, data = map (\<lambda>(a, b). a + b) (zip (data x) (data y))\<rparr>
     else Inl Broadcast)"

text \<open>A score is a real number or \<^verbatim>\<open>float("-inf")\<close>; \<open>exp\<close> of the latter is \<open>0\<close>.\<close>

datatype xreal = Fin real | MInf

fun xexp :: "xreal \<Rightarrow> real" where
  "xexp (Fin r) = exp r"
| "xexp MInf = 0"

definition fin_tensor :: "real tensor \<Rightarrow> xreal tensor" where
  "fin_tensor x = \<lparr>shape = shape x, data = map Fin (data x)\<rparr>"

text \<open>
  \<^verbatim>\<open>F.softmax(x, dim=2)\<close> on a 3-dimensional tensor: every row of every slice is
  exponentiated and divided by its sum.  A row of the library's softmax whose entries are
  all \<open>-inf\<close> is NaN; that is the only way the sum of a non-empty row is \<open>0\<close>.
\<close>

definition softmax_den :: "nat \<Rightarrow> nat \<Rightarrow> xreal list \<Rightarrow> nat \<Rightarrow> nat \<Rightarrow> real" where
  "softmax_den t u xs i r = (\<Sum>k\<in>{0..<u}. xexp (at3 t u xs i r k))"

definition softmax2 :: "xreal tensor \<Rightarrow> error + real tensor" where
  "softmax2 x =
    (case shape x of
       [n, t, u] \<Rightarrow>
         if 0 < u \<and> (\<exists>i\<in>{0..<n}. \<exists>r\<in>{0..<t}. softmax_den t u (data x) i r = 0)
         then Inl NonFinite
         else Inr \<lparr>shape = [n, t, u],
                   data = tab3 n t u
                     (\<lambda>i r c. xexp (at3 t u (data x) i r c) / softmax_den t u (data x) i r)\<rparr>
     | _ \<Rightarrow> Inl IndexError)"

section \<open>Layers of the library\<close>

text \<open>
  \<^verbatim>\<open>nn.Linear(in_features, out_features, bias)\<close> owns a weight of shape
  \<open>(out_features, in_features)\<close> and, with \<^verbatim>\<open>bias=True\<close>, a bias of length
  \<open>out_features\<close>.  The library refuses to allocate a negative dimension.  Whether it builds
  a layer with a zero dimension depends on its version: current versions do (initializing an
  empty weight does nothing), earlier ones divide by the square root of \<open>in_features\<close> while
  they initialize the weight and raise \<^verbatim>\<open>ZeroDivisionError\<close> when it is \<open>0\<close>.  The argument
  \<open>builds\<close> says which layers of non-negative dimensions the library builds.  The values the
  parameters hold (random at construction, trained afterwards) are the arguments \<open>w\<close> and
  \<open>c\<close>.
\<close>

record Linear =
  in_features :: nat
  out_features :: nat
  weight :: "real list"
  bias :: "real list option"

definition nn_Linear ::
  "(nat \<Rightarrow> nat \<Rightarrow> bool) \<Rightarrow> int \<Rightarrow> int \<Rightarrow> bool \<Rightarrow> (nat \<Rightarrow> nat \<Rightarrow> real) \<Rightarrow> (nat \<Rightarrow> real)
    \<Rightarrow> error + Linear" where
  "nn_Linear builds n_in n_out has_bias w c =
    (if n_in < 0 \<or> n_out < 0 then Inl RuntimeError
     else if \<not> builds (nat n_in) (nat n_out) then Inl ZeroDivisionError
     else Inr \<lparr>in_features = nat n_in, out_features = nat n_out,
               weight = tab2 (nat n_out) (nat n_in) w,
               bias = (if has_bias then Some (map c [0..<nat n_out]) else None)\<rparr>)"

text \<open>The two behaviours of the library: every layer is built; a layer without inputs is not.\<close>

definition builds_all :: "nat \<Rightarrow> nat \<Rightarrow> bool" where
  "builds_all n_in n_out \<longleftrightarrow> True"

definition builds_nonzero_input :: "nat \<Rightarrow> nat \<Rightarrow> bool" where
  "builds_nonzero_input n_in n_out \<longleftrightarrow> 0 < n_in"

text \<open>Entry \<open>(r, k)\<close> of the weight matrix and entry \<open>r\<close> of the bias (\<open>0\<close> without bias).\<close>

definition weight_at :: "Linear \<Rightarrow> nat \<Rightarrow> nat \<Rightarrow> real" where
  "weight_at L r k = weight L ! (r * in_features L + k)"

definition bias_at :: "Linear \<Rightarrow> nat \<Rightarrow> real" where
  "bias_at L r = (case bias L of None \<Rightarrow> 0 | Some bs \<Rightarrow> bs ! r)"

text \<open>
  The forward pass \<open>y = x W\<^sup>T + b\<close>, applied to the last dimension: \<open>affine L xs r c\<close> is
  output feature \<open>c\<close> for the \<open>r\<close>-th row of the storage \<open>xs\<close>.
\<close>

definition affine :: "Linear \<Rightarrow> real list \<Rightarrow> nat \<Rightarrow> nat \<Rightarrow> real" where
  "affine L xs r c =
    (\<Sum>k\<in>{0..<in_features L}. xs ! (r * in_features L + k) * weight_at L c k) + bias_at L c"

definition Linear_forward :: "Linear \<Rightarrow> real tensor \<Rightarrow> error + real tensor" where
  "Linear_forward L x =
    (if shape x = [] \<or> last (shape x) \<noteq> in_features L then Inl RuntimeError
     else
       Inr \<lparr>shape = butlast (shape x) @ [out_features L],
            data = tab2 (prod_list (butlast (shape x))) (out_features L) (affine L (data x))\<rparr>)"

text \<open>\<^verbatim>\<open>nn.ReLU\<close>.\<close>

definition ReLU :: "real tensor \<Rightarrow> real tensor" where
  "ReLU x = \<lparr>shape = shape x, data = map (max 0) (data x)\<rparr>"

text \<open>
  \<^verbatim>\<open>nn.LayerNorm(emb)\<close> with the library's defaults: \<open>eps = 1e-5\<close>, a learned scale and
  shift per feature.  Each row of the last dimension is centred, divided by
  \<open>sqrt (var + eps)\<close> with the biased variance, scaled and shifted.
\<close>

record LayerNorm =
  normalized_shape :: nat
  eps :: real
  ln_weight :: "real list"
  ln_bias :: "real list"

definition nn_LayerNorm :: "int \<Rightarrow> (nat \<Rightarrow> real) \<Rightarrow> (nat \<Rightarrow> real) \<Rightarrow> error + LayerNorm" where
  "nn_LayerNorm d g c =
    (if d < 0 then Inl RuntimeError
     else Inr \<lparr>normalized_shape = nat d, eps = 1 / 100000,
               ln_weight = map g [0..<nat d], ln_bias = map c [0..<nat d]\<rparr>)"

definition row_mean :: "nat \<Rightarrow> real list \<Rightarrow> nat \<Rightarrow> real" where
  "row_mean d xs r = (\<Sum>k\<in>{0..<d}. xs ! (r * d + k)) / real d"

definition row_var :: "nat \<Rightarrow> real list \<Rightarrow> nat \<Rightarrow> real" where
  "row_var d xs r = (\<Sum>k\<in>{0..<d}. (xs ! (r * d + k) - row_mean d xs r)\<^sup>2) / real d"

text \<open>\<open>normalize N xs r k\<close> is entry \<open>k\<close> of the normalized \<open>r\<close>-th row of the storage \<open>xs\<close>.\<close>

definition normalize :: "LayerNorm \<Rightarrow> real list \<Rightarrow> nat \<Rightarrow> nat \<Rightarrow> real" where
  "normalize N xs r k =
    (xs ! (r * normalized_shape N + k) - row_mean (normalized_shape N) xs r)
      / sqrt (row_var (normalized_shape N) xs r + eps N)
      * ln_weight N ! k + ln_bias N ! k"

definition LayerNorm_forward :: "LayerNorm \<Rightarrow> real tensor \<Rightarrow> error + real tensor" where
  "LayerNorm_forward N x =
    (if shape x = [] \<or> last (shape x) \<noteq> normalized_shape N then Inl RuntimeError
     else
       (let n = prod_list (butlast (shape x)); d = normalized_shape N in
        if 0 < d \<and> (\<exists>r\<in>{0..<n}. row_var d (data x) r + eps N \<le> 0) then Inl NonFinite
        else Inr \<lparr>shape = shape x, data = tab2 n d (normalize N (data x))\<rparr>))"

text \<open>
  \<^verbatim>\<open>nn.Dropout(p)\<close> refuses a probability outside \<open>[0, 1]\<close>.  In training mode with
  \<open>p > 0\<close> every element is dropped or kept and rescaled by \<open>1 / (1 - p)\<close>; the random draw
  is the argument \<open>keep\<close> (by storage position).  Otherwise the layer is the identity.
\<close>

record Dropout =
  p :: real

definition nn_Dropout :: "real \<Rightarrow> error + Dropout" where
  "nn_Dropout q = (if q < 0 \<or> 1 < q then Inl ValueError else Inr \<lparr>p = q\<rparr>)"

definition Dropout_forward :: "Dropout \<Rightarrow> bool \<Rightarrow> (nat \<Rightarrow> bool) \<Rightarrow> real tensor \<Rightarrow> real tensor" where
  "Dropout_forward D training keep x =
    (if training \<and> 0 < p D then
       \<lparr>shape = shape x,
        data = map (\<lambda>i. if keep i \<and> p D < 1 then data x ! i / (1 - p D) else 0)
                 [0..<length (data x)]\<rparr>
     else x)"

section \<open>\<^verbatim>\<open>util.mask_\<close>\<close>

text \<open>
  Modelled from the spec: \<^verbatim>\<open>mask_\<close> lives in \<^verbatim>\<open>former/util.py\<close>, which is not among the
  sources.  The spec: for every slice, every score at row \<open>i\<close>, column \<open>j > i\<close> is set to
  the mask value; the diagonal and all \<open>j \<le> i\<close> remain visible.  The call in
  \<^verbatim>\<open>SelfAttention.forward\<close> passes \<^verbatim>\<open>maskval=float("-inf")\<close> and
  \<^verbatim>\<open>mask_diagonal=False\<close>; with \<^verbatim>\<open>mask_diagonal=True\<close> the diagonal is masked as well.
  The tensor is updated in place: the model returns the updated tensor.
\<close>

definition mask_util :: "xreal tensor \<Rightarrow> xreal \<Rightarrow> bool \<Rightarrow> error + xreal tensor" where
  "mask_util matrices maskval mask_diagonal =
    (case shape matrices of
       [b, h, w] \<Rightarrow>
         Inr \<lparr>shape = [b, h, w],
              data = tab3 b h w
                (\<lambda>s i j. if (if mask_diagonal then i \<le> j else i < j) then maskval
                          else at3 h w (data matrices) s i j)\<rparr>
     | _ \<Rightarrow> Inl ValueError)"

section \<open>\<^verbatim>\<open>SelfAttention\<close>\<close>

record SelfAttention =
  emb :: int
  heads :: int
  mask :: bool
  tokeys :: Linear
  toqueries :: Linear
  tovalues :: Linear
  unifyheads :: Linear

text \<open>The values held by the parameters of a \<^verbatim>\<open>SelfAttention\<close>.\<close>

record attention_params =
  wk :: "nat \<Rightarrow> nat \<Rightarrow> real"
  wq :: "nat \<Rightarrow> nat \<Rightarrow> real"
  wv :: "nat \<Rightarrow> nat \<Rightarrow> real"
  wu :: "nat \<Rightarrow> nat \<Rightarrow> real"
  bu :: "nat \<Rightarrow> real"

definition SelfAttention_init ::
  "(nat \<Rightarrow> nat \<Rightarrow> bool) \<Rightarrow> int \<Rightarrow> int \<Rightarrow> bool \<Rightarrow> attention_params
    \<Rightarrow> error + SelfAttention" where
  "SelfAttention_init builds e h msk P =
    andthen (nn_Linear builds e (e * h) False (wk P) (\<lambda>_. 0)) (\<lambda>tk.
    andthen (nn_Linear builds e (e * h) False (wq P) (\<lambda>_. 0)) (\<lambda>tq.
    andthen (nn_Linear builds e (e * h) False (wv P) (\<lambda>_. 0)) (\<lambda>tv.
    andthen (nn_Linear builds (h * e) e True (wu P) (bu P)) (\<lambda>un.
    Inr \<lparr>emb = e, heads = h, mask = msk,
         tokeys = tk, toqueries = tq, tovalues = tv, unifyheads = un\<rparr>))))"

text \<open>The two steps applied to each of keys, queries and values.\<close>

definition project_heads ::
  "Linear \<Rightarrow> nat \<Rightarrow> nat \<Rightarrow> int \<Rightarrow> nat \<Rightarrow> real tensor \<Rightarrow> error + real tensor" where
  "project_heads L b t h e x =
    andthen (Linear_forward L x) (view [int b, int t, h, int e])"

definition fold_heads :: "nat \<Rightarrow> nat \<Rightarrow> int \<Rightarrow> nat \<Rightarrow> real tensor \<Rightarrow> error + real tensor" where
  "fold_heads b t h e x =
    andthen (transpose12 x) (view [int b * h, int t, int e])"

text \<open>
  The scores: \<^verbatim>\<open>queries = queries / math.sqrt(e)\<close> followed by
  \<^verbatim>\<open>dot = torch.bmm(queries, keys.transpose(1, 2))\<close>.
\<close>

definition scaled_dot :: "nat \<Rightarrow> real tensor \<Rightarrow> real tensor \<Rightarrow> error + real tensor" where
  "scaled_dot e queries keys =
    andthen (tdiv queries (sqrt (real e))) (\<lambda>queries.
    andthen (transpose12 keys) (bmm queries))"

text \<open>
  The scaling this replaced (it is kept in the source as a comment): both queries and keys
  are divided by \<^verbatim>\<open>math.pow(e, 0.25)\<close> before the product.
\<close>

definition scaled_dot_both :: "nat \<Rightarrow> real tensor \<Rightarrow> real tensor \<Rightarrow> error + real tensor" where
  "scaled_dot_both e queries keys =
    andthen (tdiv queries (real e powr (1 / 4))) (\<lambda>queries.
    andthen (tdiv keys (real e powr (1 / 4))) (\<lambda>keys.
    andthen (transpose12 keys) (bmm queries)))"

text \<open>
  \<^verbatim>\<open>assert dot.size() == (b * h, t, t)\<close>: the size of the score tensor is compared with the
  tuple of Python integers.
\<close>

definition assert_dot_size :: "nat \<Rightarrow> int \<Rightarrow> nat \<Rightarrow> real tensor \<Rightarrow> error + real tensor" where
  "assert_dot_size b h t dot =
    (if map int (shape dot) \<noteq> [int b * h, int t, int t] then Inl (AssertionError DotSize)
     else Inr dot)"

text \<open>
  The forward pass up to the row-wise attention probabilities (the statements through
  \<^verbatim>\<open>dot = F.softmax(dot, dim=2)\<close>), for an input whose size unpacked to \<open>(b, t, e)\<close>.  It
  returns \<^verbatim>\<open>dot\<close> and \<^verbatim>\<open>values\<close>, the two variables the rest of the pass reads.
\<close>

definition attention_matrix ::
  "SelfAttention \<Rightarrow> nat \<Rightarrow> nat \<Rightarrow> nat \<Rightarrow> real tensor \<Rightarrow> error + real tensor \<times> real tensor" where
  "attention_matrix m b t e x =
    (let h = heads m in
     andthen (project_heads (tokeys m) b t h e x) (\<lambda>keys.
     andthen (project_heads (toqueries m) b t h e x) (\<lambda>queries.
     andthen (project_heads (tovalues m) b t h e x) (\<lambda>values.
     andthen (fold_heads b t h e keys) (\<lambda>keys.
     andthen (fold_heads b t h e queries) (\<lambda>queries.
     andthen (fold_heads b t h e values) (\<lambda>values.
     andthen (scaled_dot e queries keys) (\<lambda>dot.
     andthen (assert_dot_size b h t dot) (\<lambda>dot.
     andthen (if mask m then mask_util (fin_tensor dot) MInf False
              else Inr (fin_tensor dot)) (\<lambda>dot.
     andthen (softmax2 dot) (\<lambda>dot.
     Inr (dot, values))))))))))))"

definition SelfAttention_forward :: "SelfAttention \<Rightarrow> real tensor \<Rightarrow> error + real tensor" where
  "SelfAttention_forward m x =
    (case shape x of
       [b, t, e] \<Rightarrow>
         (let h = heads m in
          if int e \<noteq> emb m then Inl (AssertionError EmbeddingDim)
          else
            andthen (attention_matrix m b t e x) (\<lambda>(dot, values).
            andthen (andthen (bmm dot values) (view [int b, h, int t, int e])) (\<lambda>out.
            andthen (andthen (transpose12 out) (view [int b, int t, h * int e])) (\<lambda>out.
            Linear_forward (unifyheads m) out))))
     | _ \<Rightarrow> Inl ValueError)"

section \<open>\<^verbatim>\<open>TransformerBlock\<close>\<close>

text \<open>\<^verbatim>\<open>nn.Sequential(nn.Linear, nn.ReLU(), nn.Linear)\<close>: entries 0 and 2 own parameters.\<close>

record Sequential =
  ff0 :: Linear
  ff2 :: Linear

definition Sequential_forward :: "Sequential \<Rightarrow> real tensor \<Rightarrow> error + real tensor" where
  "Sequential_forward S x =
    andthen (Linear_forward (ff0 S) x) (\<lambda>y. Linear_forward (ff2 S) (ReLU y))"

record TransformerBlock =
  attention :: SelfAttention
  block_mask :: bool
  norm1 :: LayerNorm
  norm2 :: LayerNorm
  ff :: Sequential
  dropout :: Dropout

record block_params =
  att :: attention_params
  g1 :: "nat \<Rightarrow> real"
  c1 :: "nat \<Rightarrow> real"
  g2 :: "nat \<Rightarrow> real"
  c2 :: "nat \<Rightarrow> real"
  w0 :: "nat \<Rightarrow> nat \<Rightarrow> real"
  b0 :: "nat \<Rightarrow> real"
  w2 :: "nat \<Rightarrow> nat \<Rightarrow> real"
  b2 :: "nat \<Rightarrow> real"

definition TransformerBlock_init ::
  "(nat \<Rightarrow> nat \<Rightarrow> bool) \<Rightarrow> int \<Rightarrow> int \<Rightarrow> bool \<Rightarrow> int \<Rightarrow> int \<Rightarrow> real \<Rightarrow> block_params
    \<Rightarrow> error + TransformerBlock" where
  "TransformerBlock_init builds e h msk seq_length ff_hidden_mult q P =
    andthen (SelfAttention_init builds e h msk (att P)) (\<lambda>a.
    andthen (nn_LayerNorm e (g1 P) (c1 P)) (\<lambda>n1.
    andthen (nn_LayerNorm e (g2 P) (c2 P)) (\<lambda>n2.
    andthen (nn_Linear builds e (ff_hidden_mult * e) True (w0 P) (b0 P)) (\<lambda>l0.
    andthen (nn_Linear builds (ff_hidden_mult * e) e True (w2 P) (b2 P)) (\<lambda>l2.
    andthen (nn_Dropout q) (\<lambda>d.
    Inr \<lparr>attention = a, block_mask = msk, norm1 = n1, norm2 = n2,
         ff = \<lparr>ff0 = l0, ff2 = l2\<rparr>, dropout = d\<rparr>))))))"

text \<open>
  The forward pass.  \<open>training\<close> is the module's mode; \<open>keep1\<close> and \<open>keep2\<close> are the random
  draws of the two dropout applications.
\<close>

definition TransformerBlock_forward ::
  "TransformerBlock \<Rightarrow> bool \<Rightarrow> (nat \<Rightarrow> bool) \<Rightarrow> (nat \<Rightarrow> bool) \<Rightarrow> real tensor
    \<Rightarrow> error + real tensor" where
  "TransformerBlock_forward B training keep1 keep2 x =
    andthen (SelfAttention_forward (attention B) x) (\<lambda>attended.
    andthen (andthen (tadd attended x) (LayerNorm_forward (norm1 B))) (\<lambda>x.
    (let x = Dropout_forward (dropout B) training keep1 x in
     andthen (Sequential_forward (ff B) x) (\<lambda>fedforward.
     andthen (andthen (tadd fedforward x) (LayerNorm_forward (norm2 B))) (\<lambda>x.
     Inr (Dropout_forward (dropout B) training keep2 x))))))"

section \<open>The attention computation, entry by entry\<close>

text \<open>
  The quantities of the attention algorithm written out per entry, for a module \<open>m\<close> and an
  input \<open>x\<close> of shape \<open>(b, t, e)\<close>.  A slice \<open>s = i * h + k\<close> is head \<open>k\<close> of batch element \<open>i\<close>.
  Head \<open>k\<close> reads the output features \<open>k * e, \<dots>, k * e + e - 1\<close> of each projection.
\<close>

definition heads_of :: "SelfAttention \<Rightarrow> nat" where
  "heads_of m = nat (heads m)"

definition seq_len :: "'a tensor \<Rightarrow> nat" where
  "seq_len x = shape x ! 1"

definition width :: "'a tensor \<Rightarrow> nat" where
  "width x = shape x ! 2"

definition head_entry :: "Linear \<Rightarrow> nat \<Rightarrow> real tensor \<Rightarrow> nat \<Rightarrow> nat \<Rightarrow> nat \<Rightarrow> real" where
  "head_entry L h x s j c =
    affine L (data x) ((s div h) * seq_len x + j) ((s mod h) * width x + c)"

definition score_at :: "SelfAttention \<Rightarrow> real tensor \<Rightarrow> nat \<Rightarrow> nat \<Rightarrow> nat \<Rightarrow> real" where
  "score_at m x s r c =
    (\<Sum>k\<in>{0..<width x}.
       head_entry (toqueries m) (heads_of m) x s r k / sqrt (real (width x))
       * head_entry (tokeys m) (heads_of m) x s c k)"

definition masked_score :: "SelfAttention \<Rightarrow> real tensor \<Rightarrow> nat \<Rightarrow> nat \<Rightarrow> nat \<Rightarrow> xreal" where
  "masked_score m x s r c = (if mask m \<and> r < c then MInf else Fin (score_at m x s r c))"

definition attn_weight :: "SelfAttention \<Rightarrow> real tensor \<Rightarrow> nat \<Rightarrow> nat \<Rightarrow> nat \<Rightarrow> real" where
  "attn_weight m x s r c =
    xexp (masked_score m x s r c) / (\<Sum>k\<in>{0..<seq_len x}. xexp (masked_score m x s r k))"

definition head_out :: "SelfAttention \<Rightarrow> real tensor \<Rightarrow> nat \<Rightarrow> nat \<Rightarrow> nat \<Rightarrow> real" where
  "head_out m x s r c =
    (\<Sum>k\<in>{0..<seq_len x}. attn_weight m x s r k * head_entry (tovalues m) (heads_of m) x s k c)"

definition attention_at :: "SelfAttention \<Rightarrow> real tensor \<Rightarrow> nat \<Rightarrow> nat \<Rightarrow> nat \<Rightarrow> real" where
  "attention_at m x i j c =
    (\<Sum>k\<in>{0..<heads_of m * width x}.
       head_out m x (i * heads_of m + k div width x) j (k mod width x)
       * weight_at (unifyheads m) c k)
    + bias_at (unifyheads m) c"

text \<open>
  The dimensions of the layers of a \<^verbatim>\<open>SelfAttention\<close> constructed with embedding width \<open>e\<close>
  and \<open>h\<close> heads.
\<close>

definition layer_dims :: "SelfAttention \<Rightarrow> nat \<Rightarrow> nat \<Rightarrow> bool" where
  "layer_dims m e h \<longleftrightarrow>
     emb m = int e \<and> heads m = int h \<and>
     in_features (tokeys m) = e \<and> out_features (tokeys m) = e * h \<and>
     in_features (toqueries m) = e \<and> out_features (toqueries m) = e * h \<and>
     in_features (tovalues m) = e \<and> out_features (tovalues m) = e * h \<and>
     in_features (unifyheads m) = h * e \<and> out_features (unifyheads m) = e"

text \<open>
  The input with its sequence positions rearranged, \<^verbatim>\<open>x[:, perm, :]\<close>: position \<open>j\<close> of the
  result holds position \<open>perm j\<close> of \<open>x\<close>.
\<close>

definition permute_positions :: "(nat \<Rightarrow> nat) \<Rightarrow> 'a tensor \<Rightarrow> 'a tensor" where
  "permute_positions perm x =
    \<lparr>shape = shape x,
     data = tab3 (shape x ! 0) (seq_len x) (width x)
       (\<lambda>i j k. at3 (seq_len x) (width x) (data x) i (perm j) k)\<rparr>"

section \<open>Normalization as a function\<close>

text \<open>
  The tensor \<^verbatim>\<open>nn.LayerNorm\<close> returns when it returns, and the sum \<^verbatim>\<open>x + x\<close> of a tensor with
  itself.
\<close>

definition Normalize :: "LayerNorm \<Rightarrow> real tensor \<Rightarrow> real tensor" where
  "Normalize N x =
    \<lparr>shape = shape x,
     data = tab2 (prod_list (butlast (shape x))) (normalized_shape N) (normalize N (data x))\<rparr>"

definition twice :: "real tensor \<Rightarrow> real tensor" where
  "twice x = \<lparr>shape = shape x, data = map (\<lambda>v. v + v) (data x)\<rparr>"

section \<open>Parameter values used in examples\<close>

text \<open>Square identity weights and zero bias for the four projections of an attention layer.\<close>

definition identity_attention_params :: attention_params where
  "identity_attention_params =
    \<lparr>wk = (\<lambda>r k. if r = k then 1 else 0), wq = (\<lambda>r k. if r = k then 1 else 0),
     wv = (\<lambda>r k. if r = k then 1 else 0), wu = (\<lambda>r k. if r = k then 1 else 0),
     bu = (\<lambda>r. 0)\<rparr>"

text \<open>A batch of one sequence of two positions of width two.\<close>

definition x222 :: "real tensor" where
  "x222 = \<lparr>shape = [1, 2, 2], data = [1, 0, 0, 1]\<rparr>"

text \<open>
  Parameters of a block of width \<open>e\<close> with normalization scale \<open>1\<close> and shift \<open>0\<close>, zero
  biases, and feed-forward weights \<open>(I, -I, 0, \<dots>)\<close> and their transpose, for which the
  feed-forward sublayer computes \<open>max 0 y - max 0 (- y) = y\<close>.
\<close>

definition identity_block_params :: "nat \<Rightarrow> block_params" where
  "identity_block_params e =
    \<lparr>att = identity_attention_params,
     g1 = (\<lambda>k. 1), c1 = (\<lambda>k. 0), g2 = (\<lambda>k. 1), c2 = (\<lambda>k. 0),
     w0 = (\<lambda>r k. if r = k then 1 else if r = k + e then - 1 else 0), b0 = (\<lambda>r. 0),
     w2 = (\<lambda>r k. if k = r then 1 else if k = r + e then - 1 else 0), b2 = (\<lambda>r. 0)\<rparr>"

text \<open>The exchange of positions 0 and 1.\<close>

definition swap01 :: "nat \<Rightarrow> nat" where
  "swap01 j = (if j = 0 then 1 else if j = 1 then 0 else j)"

text \<open>
  The tensor of shape \<open>(1, t, 4)\<close> whose \<open>t\<close> rows are \<open>(a, -a, a, -a)\<close>, and the ones with
  \<open>a = 1\<close> and three rows or one row written out.
\<close>

definition alternating :: "nat \<Rightarrow> real \<Rightarrow> real tensor" where
  "alternating t a =
    \<lparr>shape = [1, t, 4], data = tab3 1 t 4 (\<lambda>i j k. if even k then a else - a)\<rparr>"

definition x134 :: "real tensor" where
  "x134 = \<lparr>shape = [1, 3, 4], data = [1, - 1, 1, - 1, 1, - 1, 1, - 1, 1, - 1, 1, - 1]\<rparr>"

definition x114 :: "real tensor" where
  "x114 = \<lparr>shape = [1, 1, 4], data = [1, - 1, 1, - 1]\<rparr>"

text \<open>
  The block of the regression scenario: width 4, one head, no mask, \<^verbatim>\<open>seq_length=3\<close>,
  \<^verbatim>\<open>ff_hidden_mult=4\<close>, \<^verbatim>\<open>dropout=0.0\<close>, identity weights and zero biases (\<open>projr\<close> reads the
  constructed module off the outcome of the constructor).
\<close>

definition block134 :: TransformerBlock where
  "block134 =
    projr (TransformerBlock_init builds_all (int 4) (int 1) False 3 4 0 (identity_block_params 4))"

section \<open>Sequencing of outcomes\<close>

lemma andthen_Inr [simp]: "andthen (Inr v) f = f v"
  by (simp add: andthen_def)

lemma andthen_Inl [simp]: "andthen (Inl e) f = Inl e"
  by (simp add: andthen_def)

lemma isl_andthen: "isl (andthen r f) \<longleftrightarrow> isl r \<or> isl (f (projr r))"
  by (cases r) simp_all

section \<open>Construction\<close>

lemma isl_nn_Linear:
  "isl (nn_Linear bd i j hb w c) \<longleftrightarrow> i < 0 \<or> j < 0 \<or> \<not> bd (nat i) (nat j)"
  by (simp add: nn_Linear_def)

lemma isl_nn_LayerNorm: "isl (nn_LayerNorm d g c) \<longleftrightarrow> d < 0"
  by (simp add: nn_LayerNorm_def)

lemma isl_nn_Dropout: "isl (nn_Dropout q) \<longleftrightarrow> q < 0 \<or> 1 < q"
  by (simp add: nn_Dropout_def)

lemma isl_SelfAttention_init:
  "isl (SelfAttention_init bd e h msk P) \<longleftrightarrow>
     e < 0 \<or> e * h < 0 \<or> \<not> bd (nat e) (nat (e * h)) \<or> \<not> bd (nat (e * h)) (nat e)"
  unfolding SelfAttention_init_def
  by (auto simp add: isl_andthen isl_nn_Linear mult.commute)

lemma isl_TransformerBlock_init:
  "isl (TransformerBlock_init bd e h msk sl mult q P) \<longleftrightarrow>
     e < 0 \<or> e * h < 0 \<or> \<not> bd (nat e) (nat (e * h)) \<or> \<not> bd (nat (e * h)) (nat e) \<or>
     mult * e < 0 \<or> \<not> bd (nat e) (nat (mult * e)) \<or> \<not> bd (nat (mult * e)) (nat e) \<or>
     q < 0 \<or> 1 < q"
  unfolding TransformerBlock_init_def
  by (auto simp add: isl_andthen isl_nn_Linear isl_nn_LayerNorm isl_nn_Dropout
      isl_SelfAttention_init)

lemma builds_all [simp]: "builds_all i j"
  by (simp add: builds_all_def)

section \<open>Row-major storage\<close>

lemma idx_bound: "i < n \<Longrightarrow> j < m \<Longrightarrow> i * m + j < n * (m::nat)"
proof -
  assume a: "i < n" "j < m"
  have "i * m + j < i * m + m" using a(2) by simp
  also have "\<dots> = Suc i * m" by simp
  also have "\<dots> \<le> n * m" using a(1) by (intro mult_le_mono1) simp
  finally show ?thesis .
qed

lemma rows_Suc: "rows (Suc n) f = rows n f @ f n"
  by (simp add: rows_def)

lemma length_rows:
  assumes "\<And>i. i < n \<Longrightarrow> length (f i) = m"
  shows "length (rows n f) = n * m"
  using assms by (induction n) (simp_all add: rows_Suc rows_def)

lemma nth_rows:
  assumes "\<And>i. i < n \<Longrightarrow> length (f i) = m" and "i < n" and "j < m"
  shows "rows n f ! (i * m + j) = f i ! j"
  using assms
proof (induction n)
  case 0
  then show ?case by simp
next
  case (Suc n)
  have len: "length (rows n f) = n * m"
    using Suc.prems(1) by (intro length_rows) simp
  show ?case
  proof (cases "i < n")
    case True
    then have "i * m + j < n * m"
      using Suc.prems(3) by (rule idx_bound)
    then show ?thesis
      using Suc True by (simp add: rows_Suc nth_append len)
  next
    case False
    then have "i = n" using Suc.prems(2) by simp
    then show ?thesis
      using Suc.prems(3) by (simp add: rows_Suc nth_append len)
  qed
qed

lemma rows_cong:
  assumes "\<And>i. i < n \<Longrightarrow> f i = g i"
  shows "rows n f = rows n g"
proof -
  have "map f [0..<n] = map g [0..<n]"
    using assms by (intro map_cong) simp_all
  then show ?thesis unfolding rows_def by (rule arg_cong)
qed

lemma length_tab2 [simp]: "length (tab2 n m f) = n * m"
  by (simp add: tab2_def length_rows)

lemma nth_tab2: "i < n \<Longrightarrow> j < m \<Longrightarrow> tab2 n m f ! (i * m + j) = f i j"
  by (simp add: tab2_def nth_rows)

lemma tab2_cong:
  "(\<And>i j. i < n \<Longrightarrow> j < m \<Longrightarrow> f i j = g i j) \<Longrightarrow> tab2 n m f = tab2 n m g"
  unfolding tab2_def by (intro rows_cong) simp

lemma length_tab3 [simp]: "length (tab3 b t e f) = b * t * e"
  by (simp add: tab3_def length_rows mult.assoc)

lemma nth_tab3:
  assumes "i < b" "j < t" "k < e"
  shows "tab3 b t e f ! ((i * t + j) * e + k) = f i j k"
proof -
  have "j * e + k < t * e"
    using assms(2,3) by (rule idx_bound)
  then have "tab3 b t e f ! (i * (t * e) + (j * e + k)) = tab2 t e (f i) ! (j * e + k)"
    unfolding tab3_def using assms(1) by (intro nth_rows) simp_all
  also have "\<dots> = f i j k"
    using assms(2,3) by (rule nth_tab2)
  also have "i * (t * e) + (j * e + k) = (i * t + j) * e + k"
    by (simp add: algebra_simps)
  finally show ?thesis .
qed

lemma tab3_cong:
  "(\<And>i j k. i < b \<Longrightarrow> j < t \<Longrightarrow> k < e \<Longrightarrow> f i j k = g i j k) \<Longrightarrow> tab3 b t e f = tab3 b t e g"
  unfolding tab3_def by (intro rows_cong tab2_cong) simp


lemma length_tab4 [simp]: "length (tab4 a b c d f) = a * b * c * d"
  by (simp add: tab4_def length_rows mult.assoc)

lemma nth_tab4:
  assumes "i < a" "j < b" "k < c" "l < d"
  shows "tab4 a b c d f ! (((i * b + j) * c + k) * d + l) = f i j k l"
proof -
  have "(j * c + k) * d + l < b * c * d"
    using assms(2,3,4) by (intro idx_bound) 
  then have "tab4 a b c d f ! (i * (b * c * d) + ((j * c + k) * d + l))
      = tab3 b c d (f i) ! ((j * c + k) * d + l)"
    unfolding tab4_def using assms(1) by (intro nth_rows) simp_all
  also have "\<dots> = f i j k l"
    using assms(2,3,4) by (rule nth_tab3)
  also have "i * (b * c * d) + ((j * c + k) * d + l) = ((i * b + j) * c + k) * d + l"
    by (simp add: algebra_simps)
  finally show ?thesis .
qed

lemma tab4_cong:
  "(\<And>i j k l. i < a \<Longrightarrow> j < b \<Longrightarrow> k < c \<Longrightarrow> l < d \<Longrightarrow> f i j k l = g i j k l)
    \<Longrightarrow> tab4 a b c d f = tab4 a b c d g"
  unfolding tab4_def by (intro rows_cong tab3_cong) simp

lemma map_rows: "map g (rows n f) = rows n (\<lambda>i. map g (f i))"
  by (simp add: rows_def map_concat comp_def)

lemma map_tab2: "map g (tab2 n m f) = tab2 n m (\<lambda>i j. g (f i j))"
  by (simp add: tab2_def map_rows comp_def)

lemma map_tab3: "map g (tab3 b t e f) = tab3 b t e (\<lambda>i j k. g (f i j k))"
  by (simp add: tab3_def map_rows map_tab2)

lemma map_tab4: "map g (tab4 a b c d f) = tab4 a b c d (\<lambda>i j k l. g (f i j k l))"
  by (simp add: tab4_def map_rows map_tab3)

text \<open>Merging and splitting dimensions of row-major storage.\<close>

lemma rows_mult: "rows (a * b) f = rows a (\<lambda>i. rows b (\<lambda>j. f (i * b + j)))"
proof (induction a)
  case 0
  show ?case by (simp add: rows_def)
next
  case (Suc a)
  have split: "rows (n + k) f = rows n f @ rows k (\<lambda>j. f (n + j))" for n k
    by (induction k) (simp_all add: rows_def)
  have "rows (Suc a * b) f = rows (a * b + b) f" by (simp add: add.commute)
  also have "\<dots> = rows (a * b) f @ rows b (\<lambda>j. f (a * b + j))" by (rule split)
  finally show ?case by (simp add: Suc rows_Suc)
qed

lemma rows_singleton: "rows n (\<lambda>i. [f i]) = map f [0..<n]"
  by (induction n) (simp_all add: rows_def)

lemma tab2_rows: "tab2 n m f = rows (n * m) (\<lambda>r. [f (r div m) (r mod m)])"
proof -
  have "rows (n * m) (\<lambda>r. [f (r div m) (r mod m)])
      = rows n (\<lambda>i. rows m (\<lambda>j. [f ((i * m + j) div m) ((i * m + j) mod m)]))"
    by (rule rows_mult)
  also have "\<dots> = rows n (\<lambda>i. rows m (\<lambda>j. [f i j]))"
    by (intro rows_cong) simp
  finally show ?thesis by (simp add: tab2_def rows_singleton)
qed

lemma tab3_as_tab2: "tab3 b t e f = tab2 (b * t) e (\<lambda>r. f (r div t) (r mod t))"
proof -
  have "tab2 (b * t) e (\<lambda>r. f (r div t) (r mod t))
      = rows b (\<lambda>i. rows t (\<lambda>j. map (f ((i * t + j) div t) ((i * t + j) mod t)) [0..<e]))"
    unfolding tab2_def by (rule rows_mult)
  also have "\<dots> = rows b (\<lambda>i. rows t (\<lambda>j. map (f i j) [0..<e]))"
    by (intro rows_cong) simp
  finally show ?thesis by (simp add: tab3_def tab2_def)
qed

lemma tab4_as_tab3: "tab4 a b c d f = tab3 (a * b) c d (\<lambda>s. f (s div b) (s mod b))"
proof -
  have "tab3 (a * b) c d (\<lambda>s. f (s div b) (s mod b))
      = rows a (\<lambda>i. rows b (\<lambda>j. tab2 c d (f ((i * b + j) div b) ((i * b + j) mod b))))"
    unfolding tab3_def by (rule rows_mult)
  also have "\<dots> = rows a (\<lambda>i. rows b (\<lambda>j. tab2 c d (f i j)))"
    by (intro rows_cong) simp
  finally show ?thesis by (simp add: tab4_def tab3_def)
qed

lemma tab2_split: "tab2 n (c * d) f = tab3 n c d (\<lambda>i k l. f i (k * d + l))"
proof -
  have "map (f i) [0..<c * d] = tab2 c d (\<lambda>k l. f i (k * d + l))" for i
  proof -
    have "tab2 c d (\<lambda>k l. f i (k * d + l)) = rows (c * d) (\<lambda>r. [f i (r div d * d + r mod d)])"
      by (rule tab2_rows)
    also have "\<dots> = rows (c * d) (\<lambda>r. [f i r])" by simp
    finally show ?thesis by (simp add: rows_singleton)
  qed
  then show ?thesis by (simp add: tab2_def tab3_def)
qed

lemma tab4_one: "tab4 a b c (Suc 0) f = tab3 a b c (\<lambda>i j k. f i j k 0)"
  by (simp add: tab4_def tab3_def tab2_def rows_singleton[symmetric] cong: rows_cong)

section \<open>The operations on tabulated storage\<close>

lemma tab3_as_tab4: "tab3 (a * b) c d g = tab4 a b c d (\<lambda>i j. g (i * b + j))"
  by (simp add: tab4_as_tab3)

lemma tab2_as_tab3: "tab2 (b * t) e g = tab3 b t e (\<lambda>i j. g (i * t + j))"
  by (simp add: tab3_as_tab2)

lemma at3_tab3: "i < b \<Longrightarrow> j < t \<Longrightarrow> k < e \<Longrightarrow> at3 t e (tab3 b t e f) i j k = f i j k"
  by (simp add: at3_def nth_tab3)

lemma Linear_forward_3d:
  assumes "shape x = [b, t, e]" "in_features L = e"
  shows "Linear_forward L x =
    Inr \<lparr>shape = [b, t, out_features L], data = tab2 (b * t) (out_features L) (affine L (data x))\<rparr>"
  using assms by (simp add: Linear_forward_def)

lemma view_nonneg:
  assumes "\<forall>d\<in>set dims. 0 \<le> d" "prod_list dims = int (length (data x))"
  shows "view dims x = Inr \<lparr>shape = map nat dims, data = data x\<rparr>"
proof -
  have 1: "\<not> (\<exists>d\<in>set dims. d < - 1)" using assms(1) by fastforce
  have "- 1 \<notin> set dims" using assms(1) by fastforce
  then have 2: "count_list dims (- 1) = 0" by (simp add: count_list_0_iff)
  show ?thesis
    unfolding view_def Let_def using 1 2 assms(2) by simp
qed

lemma transpose12_4d:
  "transpose12 \<lparr>shape = [a, m, n, q], data = tab4 a m n q G\<rparr>
    = Inr \<lparr>shape = [a, n, m, q], data = tab4 a n m q (\<lambda>i k j r. G i j k r)\<rparr>"
proof -
  have "tab4 a n m q (\<lambda>i k j r. tab4 a m n q G ! (((i * m + j) * n + k) * q + r))
      = tab4 a n m q (\<lambda>i k j r. G i j k r)"
    by (intro tab4_cong) (simp add: nth_tab4)
  then show ?thesis by (simp add: transpose12_def)
qed

lemma transpose12_3d:
  "transpose12 \<lparr>shape = [a, m, n], data = tab3 a m n G\<rparr>
    = Inr \<lparr>shape = [a, n, m], data = tab3 a n m (\<lambda>i k j. G i j k)\<rparr>"
proof -
  have "tab4 a n m (Suc 0) (\<lambda>i k j r. tab3 a m n G ! ((i * m + j) * n + k + r))
      = tab3 a n m (\<lambda>i k j. tab3 a m n G ! ((i * m + j) * n + k))"
    by (simp add: tab4_one)
  also have "\<dots> = tab3 a n m (\<lambda>i k j. G i j k)"
    by (intro tab3_cong) (simp add: nth_tab3)
  finally show ?thesis by (simp add: transpose12_def)
qed

lemma bmm_tab:
  "bmm \<lparr>shape = [n, t, e], data = tab3 n t e F\<rparr> \<lparr>shape = [n, e, u], data = tab3 n e u G\<rparr>
    = Inr \<lparr>shape = [n, t, u], data = tab3 n t u (\<lambda>i r c. \<Sum>k\<in>{0..<e}. F i r k * G i k c)\<rparr>"
proof -
  have "tab3 n t u (\<lambda>i r c. \<Sum>k\<in>{0..<e}. at3 t e (tab3 n t e F) i r k * at3 e u (tab3 n e u G) i k c)
      = tab3 n t u (\<lambda>i r c. \<Sum>k\<in>{0..<e}. F i r k * G i k c)"
    by (intro tab3_cong sum.cong refl) (simp add: at3_tab3)
  then show ?thesis by (simp add: bmm_def)
qed

lemma tdiv_tab:
  assumes "c \<noteq> 0 \<or> n * t * e = 0"
  shows "tdiv \<lparr>shape = [n, t, e], data = tab3 n t e F\<rparr> c
    = Inr \<lparr>shape = [n, t, e], data = tab3 n t e (\<lambda>i j k. F i j k / c)\<rparr>"
proof -
  have "c = 0 \<Longrightarrow> tab3 n t e F = []"
    using assms by (metis length_0_conv length_tab3)
  then show ?thesis by (auto simp add: tdiv_def map_tab3)
qed

lemma fin_tensor_tab:
  "fin_tensor \<lparr>shape = sh, data = tab3 n t u F\<rparr> = \<lparr>shape = sh, data = tab3 n t u (\<lambda>i j k. Fin (F i j k))\<rparr>"
  by (simp add: fin_tensor_def map_tab3)

lemma mask_util_tab:
  "mask_util \<lparr>shape = [n, t, u], data = tab3 n t u F\<rparr> v dg
    = Inr \<lparr>shape = [n, t, u],
           data = tab3 n t u (\<lambda>s i j. if (if dg then i \<le> j else i < j) then v else F s i j)\<rparr>"
proof -
  have "tab3 n t u (\<lambda>s i j. if (if dg then i \<le> j else i < j) then v else at3 t u (tab3 n t u F) s i j)
      = tab3 n t u (\<lambda>s i j. if (if dg then i \<le> j else i < j) then v else F s i j)"
    by (intro tab3_cong) (simp add: at3_tab3)
  then show ?thesis by (simp add: mask_util_def cong: if_cong)
qed

lemma softmax_den_tab:
  "i < n \<Longrightarrow> r < t \<Longrightarrow> softmax_den t u (tab3 n t u F) i r = (\<Sum>k\<in>{0..<u}. xexp (F i r k))"
  unfolding softmax_den_def by (intro sum.cong refl) (simp add: at3_tab3)

lemma softmax2_tab:
  assumes "\<And>i r. i < n \<Longrightarrow> r < t \<Longrightarrow> 0 < u \<Longrightarrow> (\<Sum>k\<in>{0..<u}. xexp (F i r k)) \<noteq> 0"
  shows "softmax2 \<lparr>shape = [n, t, u], data = tab3 n t u F\<rparr>
    = Inr \<lparr>shape = [n, t, u],
           data = tab3 n t u (\<lambda>i r c. xexp (F i r c) / (\<Sum>k\<in>{0..<u}. xexp (F i r k)))\<rparr>"
proof -
  have ok: "\<not> (0 < u \<and> (\<exists>i\<in>{0..<n}. \<exists>r\<in>{0..<t}. softmax_den t u (tab3 n t u F) i r = 0))"
    using assms by (auto simp add: softmax_den_tab)
  have "tab3 n t u (\<lambda>i r c. xexp (at3 t u (tab3 n t u F) i r c) / softmax_den t u (tab3 n t u F) i r)
      = tab3 n t u (\<lambda>i r c. xexp (F i r c) / (\<Sum>k\<in>{0..<u}. xexp (F i r k)))"
    by (intro tab3_cong) (simp add: at3_tab3 softmax_den_tab)
  then show ?thesis using ok by (simp add: softmax2_def)
qed

section \<open>Heads\<close>

lemma project_heads_eq:
  assumes "shape x = [b, t, e]" "in_features L = e" "out_features L = e * h"
  shows "project_heads L b t (int h) e x =
    Inr \<lparr>shape = [b, t, h, e],
         data = tab4 b t h e (\<lambda>i j k l. affine L (data x) (i * t + j) (k * e + l))\<rparr>"
proof -
  let ?F = "affine L (data x)"
  let ?y = "\<lparr>shape = [b, t, e * h], data = tab2 (b * t) (e * h) ?F\<rparr>"
  have lin: "Linear_forward L x = Inr ?y"
    using assms by (simp add: Linear_forward_3d)
  have "view [int b, int t, int h, int e] ?y
      = Inr \<lparr>shape = map nat [int b, int t, int h, int e], data = data ?y\<rparr>"
    by (rule view_nonneg) (simp_all add: mult.commute)
  moreover have "tab2 (b * t) (e * h) ?F = tab4 b t h e (\<lambda>i j k l. ?F (i * t + j) (k * e + l))"
  proof -
    have "tab2 (b * t) (e * h) ?F = tab2 (b * t) (h * e) ?F" by (simp add: mult.commute)
    also have "\<dots> = tab3 (b * t) h e (\<lambda>i k l. ?F i (k * e + l))" by (rule tab2_split)
    also have "\<dots> = tab4 b t h e (\<lambda>i j k l. ?F (i * t + j) (k * e + l))" by (rule tab3_as_tab4)
    finally show ?thesis .
  qed
  ultimately show ?thesis
    by (simp add: project_heads_def lin)
qed

lemma fold_heads_eq:
  "fold_heads b t (int h) e \<lparr>shape = [b, t, h, e], data = tab4 b t h e G\<rparr> =
    Inr \<lparr>shape = [b * h, t, e],
         data = tab3 (b * h) t e (\<lambda>s j c. G (s div h) j (s mod h) c)\<rparr>"
proof -
  let ?y = "\<lparr>shape = [b, h, t, e], data = tab4 b h t e (\<lambda>i k j r. G i j k r)\<rparr>"
  have "view [int b * int h, int t, int e] ?y
      = Inr \<lparr>shape = map nat [int b * int h, int t, int e], data = data ?y\<rparr>"
    by (rule view_nonneg) simp_all
  moreover have "nat (int b * int h) = b * h"
    by (simp add: nat_mult_distrib)
  moreover have "tab4 b h t e (\<lambda>i k j r. G i j k r)
      = tab3 (b * h) t e (\<lambda>s j c. G (s div h) j (s mod h) c)"
    by (rule tab4_as_tab3)
  ultimately show ?thesis
    by (simp add: fold_heads_def transpose12_4d)
qed

lemma xexp_nonneg: "0 \<le> xexp v"
  by (cases v) simp_all

lemma masked_den_pos:
  assumes "r < seq_len x"
  shows "0 < (\<Sum>k\<in>{0..<seq_len x}. xexp (masked_score m x s r k))"
proof (rule sum_pos2)
  show "finite {0..<seq_len x}" by simp
  show "r \<in> {0..<seq_len x}" using assms by simp
  show "0 < xexp (masked_score m x s r r)" by (simp add: masked_score_def)
  show "0 \<le> xexp (masked_score m x s r k)" for k by (rule xexp_nonneg)
qed

section \<open>The attention matrix in closed form\<close>

lemma SelfAttention_init_Inr:
  assumes "SelfAttention_init bd (int e) (int h) msk P = Inr m"
  shows "layer_dims m e h" and "mask m = msk"
proof -
  have m: "m = \<lparr>emb = int e, heads = int h, mask = msk,
      tokeys = \<lparr>in_features = e, out_features = e * h, weight = tab2 (e * h) e (wk P), bias = None\<rparr>,
      toqueries = \<lparr>in_features = e, out_features = e * h, weight = tab2 (e * h) e (wq P), bias = None\<rparr>,
      tovalues = \<lparr>in_features = e, out_features = e * h, weight = tab2 (e * h) e (wv P), bias = None\<rparr>,
      unifyheads = \<lparr>in_features = h * e, out_features = e, weight = tab2 e (h * e) (wu P),
        bias = Some (map (bu P) [0..<e])\<rparr>\<rparr>"
    using assms
    by (simp add: SelfAttention_init_def nn_Linear_def nat_mult_distrib flip: of_nat_mult
      split: if_splits)
  show "layer_dims m e h" by (simp add: m layer_dims_def)
  show "mask m = msk" by (simp add: m)
qed

lemma attention_matrix_eq:
  assumes sh: "shape x = [b, t, e]" and ld: "layer_dims m e h"
  shows "attention_matrix m b t e x =
    Inr (\<lparr>shape = [b * h, t, t], data = tab3 (b * h) t t (attn_weight m x)\<rparr>,
         \<lparr>shape = [b * h, t, e], data = tab3 (b * h) t e (head_entry (tovalues m) h x)\<rparr>)"
proof -
  have hm: "heads m = int h" and ho: "heads_of m = h"
    using ld by (simp_all add: layer_dims_def heads_of_def)
  have tx: "seq_len x = t" and wx: "width x = e"
    using sh by (simp_all add: seq_len_def width_def)
  let ?P = "\<lambda>L. \<lparr>shape = [b, t, h, e],
      data = tab4 b t h e (\<lambda>i j k l. affine L (data x) (i * t + j) (k * e + l))\<rparr>"
  let ?H = "\<lambda>L. \<lparr>shape = [b * h, t, e], data = tab3 (b * h) t e (head_entry L h x)\<rparr>"
  have ent: "(\<lambda>s j c. affine L (data x) (s div h * t + j) (s mod h * e + c)) = head_entry L h x"
    for L by (intro ext) (simp add: head_entry_def tx wx)
  have pk: "project_heads (tokeys m) b t (int h) e x = Inr (?P (tokeys m))"
    using sh ld by (intro project_heads_eq) (simp_all add: layer_dims_def)
  have pq: "project_heads (toqueries m) b t (int h) e x = Inr (?P (toqueries m))"
    using sh ld by (intro project_heads_eq) (simp_all add: layer_dims_def)
  have pv: "project_heads (tovalues m) b t (int h) e x = Inr (?P (tovalues m))"
    using sh ld by (intro project_heads_eq) (simp_all add: layer_dims_def)
  have fh: "fold_heads b t (int h) e (?P L) = Inr (?H L)" for L
    by (simp add: fold_heads_eq ent)
  let ?Q = "\<lparr>shape = [b * h, t, e],
      data = tab3 (b * h) t e (\<lambda>s j c. head_entry (toqueries m) h x s j c / sqrt (real e))\<rparr>"
  have "sqrt (real e) \<noteq> 0 \<or> b * h * t * e = 0" by auto
  then have td: "tdiv (?H (toqueries m)) (sqrt (real e)) = Inr ?Q"
    by (rule tdiv_tab)
  let ?KT = "\<lparr>shape = [b * h, e, t],
      data = tab3 (b * h) e t (\<lambda>s k j. head_entry (tokeys m) h x s j k)\<rparr>"
  have tr: "transpose12 (?H (tokeys m)) = Inr ?KT"
    by (rule transpose12_3d)
  let ?D = "\<lparr>shape = [b * h, t, t], data = tab3 (b * h) t t (score_at m x)\<rparr>"
  have "(\<lambda>s r c. \<Sum>k\<in>{0..<e}. head_entry (toqueries m) h x s r k / sqrt (real e)
      * head_entry (tokeys m) h x s c k) = score_at m x"
    by (intro ext) (simp add: score_at_def wx ho)
  then have bm: "bmm ?Q ?KT = Inr ?D"
    by (simp add: bmm_tab)
  let ?DM = "\<lparr>shape = [b * h, t, t], data = tab3 (b * h) t t (masked_score m x)\<rparr>"
  have mk: "(if mask m then mask_util (fin_tensor ?D) MInf False else Inr (fin_tensor ?D)) = Inr ?DM"
  proof (cases "mask m")
    case True
    then have "(\<lambda>s i j. if i < j then MInf else Fin (score_at m x s i j)) = masked_score m x"
      by (intro ext) (simp add: masked_score_def)
    then show ?thesis using True by (simp add: fin_tensor_tab mask_util_tab)
  next
    case False
    then have "(\<lambda>s i j. Fin (score_at m x s i j)) = masked_score m x"
      by (intro ext) (simp add: masked_score_def)
    then show ?thesis using False by (simp add: fin_tensor_tab)
  qed
  have "softmax2 ?DM = Inr \<lparr>shape = [b * h, t, t],
      data = tab3 (b * h) t t (\<lambda>i r c. xexp (masked_score m x i r c)
        / (\<Sum>k\<in>{0..<t}. xexp (masked_score m x i r k)))\<rparr>"
  proof (rule softmax2_tab)
    fix i r assume "r < t"
    then have "0 < (\<Sum>k\<in>{0..<t}. xexp (masked_score m x i r k))"
      using masked_den_pos [of r x m i] by (simp add: tx)
    then show "(\<Sum>k\<in>{0..<t}. xexp (masked_score m x i r k)) \<noteq> 0" by simp
  qed
  moreover have "(\<lambda>i r c. xexp (masked_score m x i r c)
        / (\<Sum>k\<in>{0..<t}. xexp (masked_score m x i r k))) = attn_weight m x"
    by (intro ext) (simp add: attn_weight_def tx)
  ultimately have sm: "softmax2 ?DM = Inr \<lparr>shape = [b * h, t, t],
      data = tab3 (b * h) t t (attn_weight m x)\<rparr>"
    by simp
  have sd: "scaled_dot e (?H (toqueries m)) (?H (tokeys m)) = Inr ?D"
    by (simp only: scaled_dot_def td tr bm andthen_Inr)
  have ad: "assert_dot_size b (int h) t ?D = Inr ?D"
    by (simp add: assert_dot_size_def)
  show ?thesis
    unfolding attention_matrix_def Let_def hm
    by (simp only: pk pq pv fh andthen_Inr sd ad mk sm)
qed

section \<open>The forward pass in closed form\<close>

lemma nth_tab4_flat:
  assumes "r < a * b" "k < c * d"
  shows "tab4 a b c d G ! (r * (c * d) + k) = G (r div b) (r mod b) (k div d) (k mod d)"
proof -
  have "tab4 a b c d G = tab3 (a * b) c d (\<lambda>s. G (s div b) (s mod b))"
    by (rule tab4_as_tab3)
  also have "\<dots> = tab3 (a * b) c d
      (\<lambda>s k l. G (s div b) (s mod b) ((k * d + l) div d) ((k * d + l) mod d))"
    by (intro tab3_cong) simp
  also have "\<dots> = tab2 (a * b) (c * d) (\<lambda>s k. G (s div b) (s mod b) (k div d) (k mod d))"
    by (simp add: tab2_split)
  finally show ?thesis using assms by (simp add: nth_tab2)
qed

lemma SelfAttention_forward_eq:
  assumes sh: "shape x = [b, t, e]" and ld: "layer_dims m e h"
  shows "SelfAttention_forward m x =
    Inr \<lparr>shape = [b, t, e], data = tab3 b t e (attention_at m x)\<rparr>"
proof -
  have hm: "heads m = int h" and ho: "heads_of m = h" and em: "emb m = int e"
    and ui: "in_features (unifyheads m) = h * e" and uo: "out_features (unifyheads m) = e"
    using ld by (simp_all add: layer_dims_def heads_of_def)
  have tx: "seq_len x = t" and wx: "width x = e"
    using sh by (simp_all add: seq_len_def width_def)
  let ?A = "\<lparr>shape = [b * h, t, t], data = tab3 (b * h) t t (attn_weight m x)\<rparr>"
  let ?V = "\<lparr>shape = [b * h, t, e], data = tab3 (b * h) t e (head_entry (tovalues m) h x)\<rparr>"
  let ?O = "\<lparr>shape = [b * h, t, e], data = tab3 (b * h) t e (head_out m x)\<rparr>"
  have "(\<lambda>s r c. \<Sum>k\<in>{0..<t}. attn_weight m x s r k * head_entry (tovalues m) h x s k c)
      = head_out m x"
    by (intro ext) (simp add: head_out_def tx ho)
  then have bm: "bmm ?A ?V = Inr ?O"
    by (simp add: bmm_tab)
  let ?O4 = "\<lparr>shape = [b, h, t, e],
      data = tab4 b h t e (\<lambda>i k. head_out m x (i * h + k))\<rparr>"
  have "view [int b, int h, int t, int e] ?O
      = Inr \<lparr>shape = map nat [int b, int h, int t, int e], data = data ?O\<rparr>"
    by (rule view_nonneg) simp_all
  then have v1: "view [int b, int h, int t, int e] ?O = Inr ?O4"
    by (simp add: tab3_as_tab4)
  let ?T = "\<lparr>shape = [b, t, h, e],
      data = tab4 b t h e (\<lambda>i j k. head_out m x (i * h + k) j)\<rparr>"
  have tr: "transpose12 ?O4 = Inr ?T"
    by (rule transpose12_4d)
  let ?U = "\<lparr>shape = [b, t, h * e],
      data = tab4 b t h e (\<lambda>i j k. head_out m x (i * h + k) j)\<rparr>"
  have "view [int b, int t, int h * int e] ?T
      = Inr \<lparr>shape = map nat [int b, int t, int h * int e], data = data ?T\<rparr>"
    by (rule view_nonneg) (simp_all add: mult.assoc)
  then have v2: "view [int b, int t, int h * int e] ?T = Inr ?U"
    by (simp add: nat_mult_distrib)
  have "Linear_forward (unifyheads m) ?U
      = Inr \<lparr>shape = [b, t, e], data = tab2 (b * t) e (affine (unifyheads m) (data ?U))\<rparr>"
    using Linear_forward_3d [of ?U b t "h * e" "unifyheads m"] by (simp add: ui uo)
  moreover have "tab2 (b * t) e (affine (unifyheads m) (data ?U)) = tab3 b t e (attention_at m x)"
  proof -
    have "tab2 (b * t) e (affine (unifyheads m) (data ?U))
        = tab2 (b * t) e (\<lambda>r. attention_at m x (r div t) (r mod t))"
    proof (intro tab2_cong)
      fix r c assume r: "r < b * t"
      have "(\<Sum>k\<in>{0..<h * e}. tab4 b t h e (\<lambda>i j k. head_out m x (i * h + k) j) ! (r * (h * e) + k)
               * weight_at (unifyheads m) c k)
          = (\<Sum>k\<in>{0..<h * e}. head_out m x (r div t * h + k div e) (r mod t) (k mod e)
               * weight_at (unifyheads m) c k)"
        using r by (intro sum.cong refl) (simp add: nth_tab4_flat)
      then show "affine (unifyheads m) (data ?U) r c = attention_at m x (r div t) (r mod t) c"
        by (simp add: affine_def attention_at_def ui ho wx)
    qed
    also have "\<dots> = tab3 b t e (attention_at m x)"
      by (simp add: tab3_as_tab2)
    finally show ?thesis .
  qed
  ultimately have lf: "Linear_forward (unifyheads m) ?U
      = Inr \<lparr>shape = [b, t, e], data = tab3 b t e (attention_at m x)\<rparr>"
    by simp
  have am: "attention_matrix m b t e x = Inr (?A, ?V)"
    using sh ld by (rule attention_matrix_eq)
  show ?thesis
    unfolding SelfAttention_forward_def Let_def
    by (simp add: sh em hm am bm v1 tr v2 lf)
qed

section \<open>Attention weights\<close>

lemma attn_weight_masked_zero:
  assumes "mask m" "r < c"
  shows "attn_weight m x s r c = 0"
  using assms by (simp add: attn_weight_def masked_score_def)

lemma attn_weight_row_sum:
  assumes "r < seq_len x"
  shows "(\<Sum>c\<in>{0..<seq_len x}. attn_weight m x s r c) = 1"
proof -
  have "0 < (\<Sum>k\<in>{0..<seq_len x}. xexp (masked_score m x s r k))"
    using assms by (rule masked_den_pos)
  then show ?thesis
    by (simp add: attn_weight_def flip: sum_divide_distrib)
qed

lemma attn_weight_visible_sum:
  assumes "mask m" "r < seq_len x"
  shows "(\<Sum>c\<in>{0..r}. attn_weight m x s r c) = 1"
proof -
  have split: "{0..<seq_len x} = {0..r} \<union> {Suc r..<seq_len x}"
    using assms(2) by auto
  have "sum (attn_weight m x s r) ({0..r} \<union> {Suc r..<seq_len x})
      = sum (attn_weight m x s r) {0..r} + sum (attn_weight m x s r) {Suc r..<seq_len x}"
    by (rule sum.union_disjoint) auto
  then have "(\<Sum>c\<in>{0..<seq_len x}. attn_weight m x s r c)
      = (\<Sum>c\<in>{0..r}. attn_weight m x s r c) + (\<Sum>c\<in>{Suc r..<seq_len x}. attn_weight m x s r c)"
    by (simp only: split [symmetric])
  moreover have "(\<Sum>c\<in>{Suc r..<seq_len x}. attn_weight m x s r c) = 0"
    using assms(1) by (intro sum.neutral) (simp add: attn_weight_masked_zero)
  ultimately show ?thesis
    using attn_weight_row_sum [OF assms(2), of m s] by simp
qed

section \<open>The constructed layers\<close>

lemma SelfAttention_init_eq:
  assumes "SelfAttention_init bd (int e) (int h) msk P = Inr m"
  shows "m = \<lparr>emb = int e, heads = int h, mask = msk,
      tokeys = \<lparr>in_features = e, out_features = e * h, weight = tab2 (e * h) e (wk P), bias = None\<rparr>,
      toqueries = \<lparr>in_features = e, out_features = e * h, weight = tab2 (e * h) e (wq P), bias = None\<rparr>,
      tovalues = \<lparr>in_features = e, out_features = e * h, weight = tab2 (e * h) e (wv P), bias = None\<rparr>,
      unifyheads = \<lparr>in_features = h * e, out_features = e, weight = tab2 e (h * e) (wu P),
        bias = Some (map (bu P) [0..<e])\<rparr>\<rparr>"
  using assms
  by (simp add: SelfAttention_init_def nn_Linear_def nat_mult_distrib flip: of_nat_mult
      split: if_splits)

lemma weight_at_tab:
  assumes "r < n" "k < d"
  shows "weight_at \<lparr>in_features = d, out_features = n, weight = tab2 n d w, bias = bs\<rparr> r k = w r k"
  using assms by (simp add: weight_at_def nth_tab2)

lemma affine_unbiased:
  assumes "c < n"
  shows "affine \<lparr>in_features = d, out_features = n, weight = tab2 n d w, bias = None\<rparr> xs r c
    = (\<Sum>k\<in>{0..<d}. xs ! (r * d + k) * w c k)"
proof -
  have "(\<Sum>k\<in>{0..<d}. xs ! (r * d + k)
        * weight_at \<lparr>in_features = d, out_features = n, weight = tab2 n d w, bias = None\<rparr> c k)
      = (\<Sum>k\<in>{0..<d}. xs ! (r * d + k) * w c k)"
    using assms by (intro sum.cong refl) (simp add: weight_at_tab)
  then show ?thesis by (simp add: affine_def bias_at_def)
qed

lemma project_heads_entries:
  fixes L :: Linear
  assumes L: "L = \<lparr>in_features = e, out_features = e * h, weight = tab2 (e * h) e w, bias = None\<rparr>"
    and sh: "shape x = [b, t, e]"
  shows "\<exists>K. project_heads L b t (int h) e x = Inr K \<and> shape K = [b, t, h, e] \<and> wf K \<and>
    (\<forall>i<b. \<forall>j<t. \<forall>k<h. \<forall>l<e.
       data K ! (((i * t + j) * h + k) * e + l)
         = (\<Sum>c\<in>{0..<e}. at3 t e (data x) i j c * w (k * e + l) c))"
proof -
  let ?K = "\<lparr>shape = [b, t, h, e],
      data = tab4 b t h e (\<lambda>i j k l. affine L (data x) (i * t + j) (k * e + l))\<rparr>"
  have pk: "project_heads L b t (int h) e x = Inr ?K"
    using sh by (intro project_heads_eq) (simp_all add: L)
  have ent: "data ?K ! (((i * t + j) * h + k) * e + l)
         = (\<Sum>c\<in>{0..<e}. at3 t e (data x) i j c * w (k * e + l) c)"
    if "i < b" "j < t" "k < h" "l < e" for i j k l
  proof -
    have "k * e + l < h * e" using that(3,4) by (rule idx_bound)
    then have "k * e + l < e * h" by (simp add: mult.commute)
    then have "affine L (data x) (i * t + j) (k * e + l)
        = (\<Sum>c\<in>{0..<e}. data x ! ((i * t + j) * e + c) * w (k * e + l) c)"
      unfolding L by (rule affine_unbiased)
    then show ?thesis using that by (simp add: nth_tab4 at3_def)
  qed
  have "wf ?K" by (simp add: wf_def)
  with pk ent show ?thesis by (intro exI [of _ ?K]) simp
qed

section \<open>The layers of a block\<close>

lemma TransformerBlock_init_eq:
  assumes "TransformerBlock_init bd (int e) (int h) msk sl mult q P = Inr B"
  shows "SelfAttention_init bd (int e) (int h) msk (att P) = Inr (attention B)"
    and "norm1 B = \<lparr>normalized_shape = e, eps = 1 / 100000,
        ln_weight = map (g1 P) [0..<e], ln_bias = map (c1 P) [0..<e]\<rparr>"
    and "norm2 B = \<lparr>normalized_shape = e, eps = 1 / 100000,
        ln_weight = map (g2 P) [0..<e], ln_bias = map (c2 P) [0..<e]\<rparr>"
    and "ff0 (ff B) = \<lparr>in_features = e, out_features = nat (mult * int e),
        weight = tab2 (nat (mult * int e)) e (w0 P),
        bias = Some (map (b0 P) [0..<nat (mult * int e)])\<rparr>"
    and "ff2 (ff B) = \<lparr>in_features = nat (mult * int e), out_features = e,
        weight = tab2 e (nat (mult * int e)) (w2 P), bias = Some (map (b2 P) [0..<e])\<rparr>"
    and "dropout B = \<lparr>p = q\<rparr>" and "block_mask B = msk"
    and "0 \<le> mult * int e" and "0 \<le> q" and "q \<le> 1"
proof -
  have ok: "\<not> isl (TransformerBlock_init bd (int e) (int h) msk sl mult q P)"
    using assms by simp
  then have c: "\<not> int e * int h < 0" "\<not> mult * int e < 0" "\<not> q < 0" "\<not> 1 < q"
    "bd e (nat (int e * int h))" "bd (nat (int e * int h)) e"
    "bd e (nat (mult * int e))" "bd (nat (mult * int e)) e"
    by (simp_all add: isl_TransformerBlock_init)
  then show "0 \<le> mult * int e" "0 \<le> q" "q \<le> 1" by simp_all
  have "\<not> isl (SelfAttention_init bd (int e) (int h) msk (att P))"
    using c by (simp add: isl_SelfAttention_init)
  then obtain a where a: "SelfAttention_init bd (int e) (int h) msk (att P) = Inr a"
    by (cases "SelfAttention_init bd (int e) (int h) msk (att P)") simp_all
  have B: "B = \<lparr>attention = a, block_mask = msk,
      norm1 = \<lparr>normalized_shape = e, eps = 1 / 100000,
        ln_weight = map (g1 P) [0..<e], ln_bias = map (c1 P) [0..<e]\<rparr>,
      norm2 = \<lparr>normalized_shape = e, eps = 1 / 100000,
        ln_weight = map (g2 P) [0..<e], ln_bias = map (c2 P) [0..<e]\<rparr>,
      ff = \<lparr>ff0 = \<lparr>in_features = e, out_features = nat (mult * int e),
                weight = tab2 (nat (mult * int e)) e (w0 P),
                bias = Some (map (b0 P) [0..<nat (mult * int e)])\<rparr>,
            ff2 = \<lparr>in_features = nat (mult * int e), out_features = e,
                weight = tab2 e (nat (mult * int e)) (w2 P), bias = Some (map (b2 P) [0..<e])\<rparr>\<rparr>,
      dropout = \<lparr>p = q\<rparr>\<rparr>"
    using assms c
    by (simp add: TransformerBlock_init_def a nn_LayerNorm_def nn_Linear_def nn_Dropout_def)
  show "SelfAttention_init bd (int e) (int h) msk (att P) = Inr (attention B)"
    by (simp add: a B)
  show "norm1 B = \<lparr>normalized_shape = e, eps = 1 / 100000,
        ln_weight = map (g1 P) [0..<e], ln_bias = map (c1 P) [0..<e]\<rparr>"
    by (simp add: B)
  show "norm2 B = \<lparr>normalized_shape = e, eps = 1 / 100000,
        ln_weight = map (g2 P) [0..<e], ln_bias = map (c2 P) [0..<e]\<rparr>"
    by (simp add: B)
  show "ff0 (ff B) = \<lparr>in_features = e, out_features = nat (mult * int e),
        weight = tab2 (nat (mult * int e)) e (w0 P),
        bias = Some (map (b0 P) [0..<nat (mult * int e)])\<rparr>"
    by (simp add: B)
  show "ff2 (ff B) = \<lparr>in_features = nat (mult * int e), out_features = e,
        weight = tab2 e (nat (mult * int e)) (w2 P), bias = Some (map (b2 P) [0..<e])\<rparr>"
    by (simp add: B)
  show "dropout B = \<lparr>p = q\<rparr>" by (simp add: B)
  show "block_mask B = msk" by (simp add: B)
qed

lemma tadd_same:
  assumes "shape y = shape x"
  shows "tadd y x = Inr \<lparr>shape = shape y, data = map (\<lambda>(a, b). a + b) (zip (data y) (data x))\<rparr>"
  using assms by (simp add: tadd_def)

lemma row_var_nonneg: "0 \<le> row_var d xs r"
  unfolding row_var_def by (intro divide_nonneg_nonneg sum_nonneg) simp_all

lemma LayerNorm_forward_3d:
  assumes "shape x = [b, t, e]" "normalized_shape N = e" "0 < eps N"
  shows "LayerNorm_forward N x
    = Inr \<lparr>shape = [b, t, e], data = tab2 (b * t) e (normalize N (data x))\<rparr>"
proof -
  have "0 < row_var e (data x) r + eps N" for r
    using row_var_nonneg [of e "data x" r] assms(3) by linarith
  then have "\<not> (\<exists>r\<in>{0..<b * t}. row_var e (data x) r + eps N \<le> 0)"
    by (simp add: not_le)
  then show ?thesis
    using assms(1,2) by (simp add: LayerNorm_forward_def)
qed

lemma shape_Dropout_forward [simp]: "shape (Dropout_forward D tr k x) = shape x"
  by (simp add: Dropout_forward_def)

lemma length_Dropout_forward [simp]:
  "length (data (Dropout_forward D tr k x)) = length (data x)"
  by (simp add: Dropout_forward_def)

lemma Dropout_forward_id: "\<not> tr \<or> p D = 0 \<Longrightarrow> Dropout_forward D tr k x = x"
  by (auto simp add: Dropout_forward_def)

lemma shape_ReLU [simp]: "shape (ReLU x) = shape x"
  by (simp add: ReLU_def)

section \<open>The steps of a block\<close>

lemma block_steps:
  assumes init: "TransformerBlock_init bd (int e) (int h) msk sl mult q P = Inr B"
    and sh: "shape x = [b, t, e]"
  shows "\<exists>attended s1 n1 hid fed s2 n2.
    SelfAttention_forward (attention B) x = Inr attended \<and>
    tadd attended x = Inr s1 \<and>
    LayerNorm_forward (norm1 B) s1 = Inr n1 \<and>
    Linear_forward (ff0 (ff B)) (Dropout_forward (dropout B) tr k1 n1) = Inr hid \<and>
    shape hid = [b, t, nat (mult * int e)] \<and>
    Linear_forward (ff2 (ff B)) (ReLU hid) = Inr fed \<and>
    shape fed = [b, t, e] \<and>
    tadd fed (Dropout_forward (dropout B) tr k1 n1) = Inr s2 \<and>
    LayerNorm_forward (norm2 B) s2 = Inr n2 \<and>
    shape n2 = [b, t, e] \<and> wf n2 \<and>
    TransformerBlock_forward B tr k1 k2 x = Inr (Dropout_forward (dropout B) tr k2 n2)"
proof -
  note B = TransformerBlock_init_eq [OF init]
  have ld: "layer_dims (attention B) e h"
    using SelfAttention_init_Inr [OF B(1)] by simp
  define attended where "attended = \<lparr>shape = [b, t, e], data = tab3 b t e (attention_at (attention B) x)\<rparr>"
  have 1: "SelfAttention_forward (attention B) x = Inr attended"
    unfolding attended_def using sh ld by (rule SelfAttention_forward_eq)
  define s1 where "s1 = \<lparr>shape = shape attended,
      data = map (\<lambda>(a, b). a + b) (zip (data attended) (data x))\<rparr>"
  have 2: "tadd attended x = Inr s1"
    unfolding s1_def by (rule tadd_same) (simp add: attended_def sh)
  have s1sh: "shape s1 = [b, t, e]" by (simp add: s1_def attended_def)
  define n1 where "n1 = \<lparr>shape = [b, t, e], data = tab2 (b * t) e (normalize (norm1 B) (data s1))\<rparr>"
  have 3: "LayerNorm_forward (norm1 B) s1 = Inr n1"
    unfolding n1_def using s1sh by (rule LayerNorm_forward_3d) (simp_all add: B(2))
  define x1 where "x1 = Dropout_forward (dropout B) tr k1 n1"
  have x1sh: "shape x1 = [b, t, e]" by (simp add: x1_def n1_def)
  define hid where "hid = \<lparr>shape = [b, t, out_features (ff0 (ff B))],
      data = tab2 (b * t) (out_features (ff0 (ff B))) (affine (ff0 (ff B)) (data x1))\<rparr>"
  have 4: "Linear_forward (ff0 (ff B)) x1 = Inr hid"
    unfolding hid_def using x1sh by (rule Linear_forward_3d) (simp add: B(4))
  have hsh: "shape hid = [b, t, nat (mult * int e)]" by (simp add: hid_def B(4))
  define fed where "fed = \<lparr>shape = [b, t, out_features (ff2 (ff B))],
      data = tab2 (b * t) (out_features (ff2 (ff B))) (affine (ff2 (ff B)) (data (ReLU hid)))\<rparr>"
  have 5: "Linear_forward (ff2 (ff B)) (ReLU hid) = Inr fed"
    unfolding fed_def by (rule Linear_forward_3d [where e = "nat (mult * int e)"]) (simp_all add: hsh B(5))
  have fsh: "shape fed = [b, t, e]" by (simp add: fed_def B(5))
  define s2 where "s2 = \<lparr>shape = shape fed, data = map (\<lambda>(a, b). a + b) (zip (data fed) (data x1))\<rparr>"
  have 6: "tadd fed x1 = Inr s2"
    unfolding s2_def by (rule tadd_same) (simp add: fsh x1sh)
  have s2sh: "shape s2 = [b, t, e]" by (simp add: s2_def fsh)
  define n2 where "n2 = \<lparr>shape = [b, t, e], data = tab2 (b * t) e (normalize (norm2 B) (data s2))\<rparr>"
  have 7: "LayerNorm_forward (norm2 B) s2 = Inr n2"
    unfolding n2_def using s2sh by (rule LayerNorm_forward_3d) (simp_all add: B(3))
  have n2wf: "shape n2 = [b, t, e]" "wf n2" by (simp_all add: n2_def wf_def)
  have 8: "TransformerBlock_forward B tr k1 k2 x = Inr (Dropout_forward (dropout B) tr k2 n2)"
    unfolding TransformerBlock_forward_def Sequential_forward_def Let_def
    by (simp add: 1 2 3 4 5 6 7 flip: x1_def)
  show ?thesis
    using 1 2 3 4 5 6 7 8 hsh fsh n2wf unfolding x1_def by blast
qed

section \<open>Tensors as tabulated storage; the fourth root\<close>

lemma tab3_at3:
  assumes "length xs = n * t * e"
  shows "tab3 n t e (at3 t e xs) = xs"
proof -
  have "tab3 n t e (at3 t e xs) = tab2 (n * t) e (\<lambda>r. at3 t e xs (r div t) (r mod t))"
    by (rule tab3_as_tab2)
  also have "\<dots> = tab2 (n * t) e (\<lambda>r k. xs ! (r * e + k))"
    by (intro tab2_cong) (simp add: at3_def)
  also have "\<dots> = rows (n * t * e) (\<lambda>q. [xs ! (q div e * e + q mod e)])"
    by (rule tab2_rows)
  also have "\<dots> = map ((!) xs) [0..<n * t * e]"
    by (simp add: rows_singleton)
  also have "\<dots> = xs"
    using assms map_nth [of xs] by simp
  finally show ?thesis .
qed

lemma tensor_tab3:
  fixes x :: "'a tensor"
  assumes "shape x = [n, t, e]" "wf x"
  shows "x = \<lparr>shape = [n, t, e], data = tab3 n t e (at3 t e (data x))\<rparr>"
proof -
  have "length (data x) = n * t * e"
    using assms by (simp add: wf_def)
  then show ?thesis
    using assms(1) by (simp add: tab3_at3)
qed

lemma fourth_root_sq:
  assumes "0 < e"
  shows "real e powr (1 / 4) * real e powr (1 / 4) = sqrt (real e)"
proof -
  have "real e powr (1 / 4) * real e powr (1 / 4) = real e powr (1 / 4 + 1 / 4)"
    by (simp only: powr_add)
  also have "\<dots> = real e powr (1 / 2)" by simp
  also have "\<dots> = sqrt (real e)" by (simp add: powr_half_sqrt)
  finally show ?thesis .
qed

section \<open>Rearranging the sequence positions\<close>

lemma permute_positions_3d:
  assumes "shape x = [b, t, e]"
  shows "permute_positions f x
    = \<lparr>shape = [b, t, e], data = tab3 b t e (\<lambda>i j k. at3 t e (data x) i (f j) k)\<rparr>"
  using assms by (simp add: permute_positions_def seq_len_def width_def)

lemma slice_batch: "s < b * h \<Longrightarrow> s div h < (b::nat)"
  by (simp add: less_mult_imp_div_less)

lemma head_entry_perm:
  assumes sh: "shape x = [b, t, e]" and "s < b * h" "j < t" "in_features L = e"
  shows "head_entry L h (permute_positions f x) s j c = head_entry L h x s (f j) c"
proof -
  have dims: "seq_len (permute_positions f x) = t" "width (permute_positions f x) = e"
    "seq_len x = t" "width x = e"
    using sh by (simp_all add: permute_positions_3d seq_len_def width_def)
  have "data (permute_positions f x) ! ((s div h * t + j) * e + k)
      = data x ! ((s div h * t + f j) * e + k)" if "k < e" for k
    using that assms(2,3) sh by (simp add: permute_positions_3d nth_tab3 slice_batch at3_def)
  then have "(\<Sum>k\<in>{0..<e}. data (permute_positions f x) ! ((s div h * t + j) * e + k)
        * weight_at L ((s mod h) * e + c) k)
      = (\<Sum>k\<in>{0..<e}. data x ! ((s div h * t + f j) * e + k) * weight_at L ((s mod h) * e + c) k)"
    by (intro sum.cong refl) simp
  then show ?thesis
    by (simp add: head_entry_def affine_def dims assms(4))
qed

lemma masked_score_perm:
  assumes sh: "shape x = [b, t, e]" and ld: "layer_dims m e h" and nomask: "\<not> mask m"
    and "s < b * h" "r < t" "c < t"
  shows "masked_score m (permute_positions f x) s r c = masked_score m x s (f r) (f c)"
proof -
  have dims: "width (permute_positions f x) = e" "width x = e" "heads_of m = h"
    using sh ld by (simp_all add: permute_positions_3d width_def layer_dims_def heads_of_def)
  have q: "in_features (toqueries m) = e" and k: "in_features (tokeys m) = e"
    using ld by (simp_all add: layer_dims_def)
  have "score_at m (permute_positions f x) s r c = score_at m x s (f r) (f c)"
    unfolding score_at_def dims
    by (simp add: head_entry_perm [OF sh assms(4,5) q] head_entry_perm [OF sh assms(4,6) k])
  then show ?thesis
    using nomask by (simp add: masked_score_def)
qed

lemma attn_weight_perm:
  assumes sh: "shape x = [b, t, e]" and ld: "layer_dims m e h" and nomask: "\<not> mask m"
    and bij: "bij_betw f {0..<t} {0..<t}"
    and "s < b * h" "r < t" "c < t"
  shows "attn_weight m (permute_positions f x) s r c = attn_weight m x s (f r) (f c)"
proof -
  have dims: "seq_len (permute_positions f x) = t" "seq_len x = t"
    using sh by (simp_all add: permute_positions_3d seq_len_def)
  have "(\<Sum>k\<in>{0..<t}. xexp (masked_score m (permute_positions f x) s r k))
      = (\<Sum>k\<in>{0..<t}. xexp (masked_score m x s (f r) (f k)))"
    using assms(5,6) by (intro sum.cong refl) (simp add: masked_score_perm [OF sh ld nomask])
  also have "\<dots> = (\<Sum>k\<in>{0..<t}. xexp (masked_score m x s (f r) k))"
    by (rule sum.reindex_bij_betw [OF bij])
  finally show ?thesis
    unfolding attn_weight_def dims
    by (simp add: masked_score_perm [OF sh ld nomask assms(5,6,7)])
qed

lemma head_out_perm:
  assumes sh: "shape x = [b, t, e]" and ld: "layer_dims m e h" and nomask: "\<not> mask m"
    and bij: "bij_betw f {0..<t} {0..<t}"
    and "s < b * h" "r < t"
  shows "head_out m (permute_positions f x) s r c = head_out m x s (f r) c"
proof -
  have dims: "seq_len (permute_positions f x) = t" "seq_len x = t" "heads_of m = h"
    using sh ld by (simp_all add: permute_positions_3d seq_len_def layer_dims_def heads_of_def)
  have v: "in_features (tovalues m) = e"
    using ld by (simp add: layer_dims_def)
  have "head_out m (permute_positions f x) s r c
      = (\<Sum>k\<in>{0..<t}. attn_weight m x s (f r) (f k) * head_entry (tovalues m) h x s (f k) c)"
    unfolding head_out_def dims using assms(5,6)
    by (intro sum.cong refl)
      (simp add: attn_weight_perm [OF sh ld nomask bij] head_entry_perm [OF sh _ _ v])
  also have "\<dots> = (\<Sum>k\<in>{0..<t}. attn_weight m x s (f r) k * head_entry (tovalues m) h x s k c)"
    by (rule sum.reindex_bij_betw [OF bij])
  finally show ?thesis
    by (simp add: head_out_def dims)
qed

lemma attention_at_perm:
  assumes sh: "shape x = [b, t, e]" and ld: "layer_dims m e h" and nomask: "\<not> mask m"
    and bij: "bij_betw f {0..<t} {0..<t}"
    and "i < b" "j < t"
  shows "attention_at m (permute_positions f x) i j c = attention_at m x i (f j) c"
proof -
  have dims: "width (permute_positions f x) = e" "width x = e" "heads_of m = h"
    using sh ld by (simp_all add: permute_positions_3d width_def layer_dims_def heads_of_def)
  have "head_out m (permute_positions f x) (i * h + k div e) j (k mod e)
      = head_out m x (i * h + k div e) (f j) (k mod e)" if "k < h * e" for k
  proof -
    have "k div e < h" using that by (simp add: less_mult_imp_div_less)
    with assms(5) have "i * h + k div e < b * h" by (rule idx_bound)
    then show ?thesis using assms(6) by (rule head_out_perm [OF sh ld nomask bij])
  qed
  then have "(\<Sum>k\<in>{0..<h * e}. head_out m (permute_positions f x) (i * h + k div e) j (k mod e)
        * weight_at (unifyheads m) c k)
      = (\<Sum>k\<in>{0..<h * e}. head_out m x (i * h + k div e) (f j) (k mod e)
        * weight_at (unifyheads m) c k)"
    by (intro sum.cong refl) simp
  then show ?thesis
    by (simp add: attention_at_def dims)
qed

lemma bij_swap01: "bij_betw swap01 {0..<2} {0..<2}"
proof -
  have "{0..<2::nat} = {0, 1}" by auto
  then show ?thesis
    by (auto simp add: bij_betw_def swap01_def)
qed

section \<open>Identity weights\<close>

lemma sum_delta_right:
  fixes f :: "nat \<Rightarrow> real"
  assumes "c < n"
  shows "(\<Sum>k\<in>{0..<n}. f k * (if c = k then 1 else 0)) = f c"
proof -
  have "(\<Sum>k\<in>{0..<n}. f k * (if c = k then 1 else 0)) = (\<Sum>k\<in>{0..<n}. if c = k then f k else 0)"
    by (intro sum.cong refl) simp
  also have "\<dots> = f c"
    using assms by (simp add: sum.delta')
  finally show ?thesis .
qed

lemma affine_identity:
  assumes "c < e" and that: "c < n"
  shows "affine \<lparr>in_features = e, out_features = n, weight = tab2 n e (\<lambda>r k. if r = k then 1 else 0),
      bias = None\<rparr> xs r c = xs ! (r * e + c)"
proof -
  have "affine \<lparr>in_features = e, out_features = n, weight = tab2 n e (\<lambda>r k. if r = k then 1 else 0),
      bias = None\<rparr> xs r c = (\<Sum>k\<in>{0..<e}. xs ! (r * e + k) * (if c = k then 1 else 0))"
    using that by (rule affine_unbiased)
  then show ?thesis
    using assms by (simp add: sum_delta_right)
qed

lemma attention_identity_on_equal_rows:
  assumes init: "SelfAttention_init bd (int e) (int 1) msk identity_attention_params = Inr m"
    and sh: "shape x = [b, t, e]" and wfx: "wf x"
    and eq: "\<And>i j k. i < b \<Longrightarrow> j < t \<Longrightarrow> k < e \<Longrightarrow>
      at3 t e (data x) i j k = at3 t e (data x) i 0 k"
  shows "SelfAttention_forward m x = Inr x"
proof -
  note m = SelfAttention_init_eq [OF init]
  have ld: "layer_dims m e 1"
    using SelfAttention_init_Inr [OF init] by simp
  have dims: "seq_len x = t" "width x = e" "heads_of m = Suc 0"
    using sh ld by (simp_all add: seq_len_def width_def layer_dims_def heads_of_def)
  have v: "tovalues m = \<lparr>in_features = e, out_features = e * 1,
      weight = tab2 (e * 1) e (\<lambda>r k. if r = k then 1 else 0), bias = None\<rparr>"
    by (subst m) (simp add: identity_attention_params_def)
  have u: "unifyheads m = \<lparr>in_features = 1 * e, out_features = e,
      weight = tab2 e (1 * e) (\<lambda>r k. if r = k then 1 else 0), bias = Some (map (\<lambda>r. 0) [0..<e])\<rparr>"
    by (subst m) (simp add: identity_attention_params_def)
  have val: "head_entry (tovalues m) (Suc 0) x s j c = at3 t e (data x) s j c" if "c < e" for s j c
    using that affine_identity [of c e e "data x" "s * t + j"]
    by (simp add: head_entry_def dims v at3_def)
  have ho: "head_out m x s r c = at3 t e (data x) s r c" if "s < b" "r < t" "c < e" for s r c
  proof -
    have "head_out m x s r c = (\<Sum>k\<in>{0..<t}. attn_weight m x s r k * at3 t e (data x) s r c)"
      unfolding head_out_def dims
    proof (intro sum.cong refl)
      fix k assume "k \<in> {0..<t}"
      then have "k < t" by simp
      have "at3 t e (data x) s k c = at3 t e (data x) s 0 c"
        using that(1) \<open>k < t\<close> that(3) by (rule eq)
      also have "\<dots> = at3 t e (data x) s r c"
        using eq [OF that] by simp
      finally show "attn_weight m x s r k * head_entry (tovalues m) (Suc 0) x s k c
          = attn_weight m x s r k * at3 t e (data x) s r c"
        using that(3) by (simp add: val)
    qed
    also have "\<dots> = (\<Sum>k\<in>{0..<t}. attn_weight m x s r k) * at3 t e (data x) s r c"
      by (simp add: sum_distrib_right)
    also have "\<dots> = at3 t e (data x) s r c"
      using attn_weight_row_sum [of r x m s] that(2) by (simp add: dims)
    finally show ?thesis .
  qed
  have at: "attention_at m x i j c = at3 t e (data x) i j c" if "i < b" "j < t" "c < e" for i j c
  proof -
    have "(\<Sum>k\<in>{0..<e}. head_out m x (i + k div e) j (k mod e) * weight_at (unifyheads m) c k)
        = (\<Sum>k\<in>{0..<e}. at3 t e (data x) i j k * (if c = k then 1 else 0))"
      using that by (intro sum.cong refl) (simp add: ho u weight_at_tab)
    also have "\<dots> = at3 t e (data x) i j c"
      using that(3) by (rule sum_delta_right)
    finally show ?thesis
      using that(3) by (simp add: attention_at_def dims u bias_at_def)
  qed
  have "SelfAttention_forward m x = Inr \<lparr>shape = [b, t, e], data = tab3 b t e (attention_at m x)\<rparr>"
    using sh ld by (rule SelfAttention_forward_eq)
  moreover have "tab3 b t e (attention_at m x) = tab3 b t e (at3 t e (data x))"
    by (intro tab3_cong) (simp add: at)
  moreover have "x = \<lparr>shape = [b, t, e], data = tab3 b t e (at3 t e (data x))\<rparr>"
    using sh wfx by (rule tensor_tab3)
  ultimately show ?thesis by simp
qed

section \<open>The identity feed-forward sublayer\<close>

lemma sum_two_deltas:
  fixes g :: "nat \<Rightarrow> real"
  assumes "a < n" "d < n" "a \<noteq> d"
  shows "(\<Sum>k\<in>{0..<n}. g k * (if k = a then 1 else if k = d then - 1 else 0)) = g a - g d"
proof -
  have "(\<Sum>k\<in>{0..<n}. g k * (if k = a then 1 else if k = d then - 1 else 0))
      = (\<Sum>k\<in>{0..<n}. (if k = a then g k else 0) - (if k = d then g k else 0))"
    using assms(3) by (intro sum.cong refl) auto
  also have "\<dots> = (\<Sum>k\<in>{0..<n}. if k = a then g k else 0) - (\<Sum>k\<in>{0..<n}. if k = d then g k else 0)"
    by (rule sum_subtractf)
  also have "\<dots> = g a - g d"
    using assms(1,2) by (simp add: sum.delta)
  finally show ?thesis .
qed

lemma affine_biased_zero:
  assumes "c < n"
  shows "affine \<lparr>in_features = d, out_features = n, weight = tab2 n d w,
      bias = Some (map (\<lambda>r. 0) [0..<n])\<rparr> xs r c
    = (\<Sum>k\<in>{0..<d}. xs ! (r * d + k) * w c k)"
proof -
  have "(\<Sum>k\<in>{0..<d}. xs ! (r * d + k)
        * weight_at \<lparr>in_features = d, out_features = n, weight = tab2 n d w,
            bias = Some (map (\<lambda>r. 0) [0..<n])\<rparr> c k)
      = (\<Sum>k\<in>{0..<d}. xs ! (r * d + k) * w c k)"
    using assms by (intro sum.cong refl) (simp add: weight_at_tab)
  then show ?thesis using assms by (simp add: affine_def bias_at_def)
qed

lemma feed_forward_identity:
  assumes init: "TransformerBlock_init bd (int e) (int h) msk sl mult q (identity_block_params e) = Inr B"
    and mult: "2 \<le> mult"
    and sh: "shape y = [b, t, e]" and wfy: "wf y"
  shows "Sequential_forward (ff B) y = Inr y"
proof -
  note B = TransformerBlock_init_eq [OF init]
  define f where "f = nat (mult * int e)"
  have f2: "2 * e \<le> f"
  proof -
    have "2 * int e \<le> mult * int e" using mult by (intro mult_right_mono) simp_all
    then show ?thesis unfolding f_def by linarith
  qed
  let ?w0 = "\<lambda>r k. if r = k then 1 else if r = k + e then - 1 else (0::real)"
  let ?w2 = "\<lambda>r k. if k = r then 1 else if k = r + e then - 1 else (0::real)"
  have l0: "ff0 (ff B) = \<lparr>in_features = e, out_features = f, weight = tab2 f e ?w0,
      bias = Some (map (\<lambda>r. 0) [0..<f])\<rparr>"
    using B(4) by (simp add: identity_block_params_def f_def)
  have l2: "ff2 (ff B) = \<lparr>in_features = f, out_features = e, weight = tab2 e f ?w2,
      bias = Some (map (\<lambda>r. 0) [0..<e])\<rparr>"
    using B(5) by (simp add: identity_block_params_def f_def)
  let ?ys = "data y"
  have hid_lo: "affine (ff0 (ff B)) ?ys r c = ?ys ! (r * e + c)" if "c < e" for r c
  proof -
    have "c < f" using that f2 by simp
    then have "affine (ff0 (ff B)) ?ys r c = (\<Sum>k\<in>{0..<e}. ?ys ! (r * e + k) * ?w0 c k)"
      unfolding l0 by (rule affine_biased_zero)
    also have "\<dots> = (\<Sum>k\<in>{0..<e}. ?ys ! (r * e + k) * (if c = k then 1 else 0))"
      using that by (intro sum.cong refl) auto
    also have "\<dots> = ?ys ! (r * e + c)"
      using that by (rule sum_delta_right)
    finally show ?thesis .
  qed
  have hid_hi: "affine (ff0 (ff B)) ?ys r (c + e) = - ?ys ! (r * e + c)" if "c < e" for r c
  proof -
    have "c + e < f" using that f2 by simp
    then have "affine (ff0 (ff B)) ?ys r (c + e) = (\<Sum>k\<in>{0..<e}. ?ys ! (r * e + k) * ?w0 (c + e) k)"
      unfolding l0 by (rule affine_biased_zero)
    also have "\<dots> = (\<Sum>k\<in>{0..<e}. - ?ys ! (r * e + k) * (if c = k then 1 else 0))"
      by (intro sum.cong refl) auto
    also have "\<dots> = - ?ys ! (r * e + c)"
      using that by (rule sum_delta_right)
    finally show ?thesis .
  qed
  let ?hid = "\<lparr>shape = [b, t, f], data = tab2 (b * t) f (affine (ff0 (ff B)) ?ys)\<rparr>"
  have s1: "Linear_forward (ff0 (ff B)) y = Inr ?hid"
    using Linear_forward_3d [OF sh, of "ff0 (ff B)"] by (simp add: l0)
  let ?zs = "tab2 (b * t) f (\<lambda>r c. max 0 (affine (ff0 (ff B)) ?ys r c))"
  have relu: "ReLU ?hid = \<lparr>shape = [b, t, f], data = ?zs\<rparr>"
    by (simp add: ReLU_def map_tab2)
  have s2: "Linear_forward (ff2 (ff B)) \<lparr>shape = [b, t, f], data = ?zs\<rparr>
      = Inr \<lparr>shape = [b, t, e], data = tab2 (b * t) e (affine (ff2 (ff B)) ?zs)\<rparr>"
    using Linear_forward_3d [of "\<lparr>shape = [b, t, f], data = ?zs\<rparr>" b t f "ff2 (ff B)"]
    by (simp add: l2)
  have out: "affine (ff2 (ff B)) ?zs r c = ?ys ! (r * e + c)" if "r < b * t" "c < e" for r c
  proof -
    have cf: "c < f" "c + e < f" "c \<noteq> c + e" using that(2) f2 by simp_all
    have "affine (ff2 (ff B)) ?zs r c = (\<Sum>k\<in>{0..<f}. ?zs ! (r * f + k) * ?w2 c k)"
      unfolding l2 using that(2) by (rule affine_biased_zero)
    also have "\<dots> = (\<Sum>k\<in>{0..<f}. max 0 (affine (ff0 (ff B)) ?ys r k)
        * (if k = c then 1 else if k = c + e then - 1 else 0))"
      using that(1) by (intro sum.cong refl) (simp add: nth_tab2)
    also have "\<dots> = max 0 (affine (ff0 (ff B)) ?ys r c) - max 0 (affine (ff0 (ff B)) ?ys r (c + e))"
      using cf by (rule sum_two_deltas)
    also have "\<dots> = ?ys ! (r * e + c)"
      using that(2) by (simp add: hid_lo hid_hi max_def)
    finally show ?thesis .
  qed
  have "tab2 (b * t) e (affine (ff2 (ff B)) ?zs) = tab2 (b * t) e (\<lambda>r c. ?ys ! (r * e + c))"
    by (intro tab2_cong) (simp add: out)
  also have "\<dots> = tab3 b t e (at3 t e ?ys)"
    by (simp add: tab2_as_tab3 at3_def cong: tab3_cong)
  finally have "tab2 (b * t) e (affine (ff2 (ff B)) ?zs) = tab3 b t e (at3 t e ?ys)" .
  moreover have "y = \<lparr>shape = [b, t, e], data = tab3 b t e (at3 t e ?ys)\<rparr>"
    using sh wfy by (rule tensor_tab3)
  ultimately have "Inr \<lparr>shape = [b, t, e], data = tab2 (b * t) e (affine (ff2 (ff B)) ?zs)\<rparr>
      = (Inr y :: error + real tensor)"
    by simp
  then show ?thesis
    by (simp add: Sequential_forward_def s1 relu s2)
qed

section \<open>Normalization of alternating rows\<close>

lemma tadd_self: "tadd x x = Inr (twice x)"
  by (simp add: tadd_def twice_def zip_same_conv_map comp_def)

lemma LayerNorm_forward_Normalize:
  assumes "shape x = [b, t, e]" "normalized_shape N = e" "0 < eps N"
  shows "LayerNorm_forward N x = Inr (Normalize N x)"
  using LayerNorm_forward_3d [OF assms] assms(1,2) by (simp add: Normalize_def)

lemma upt_small: "[0..<1] = [0::nat]" "[0..<3] = [0::nat, 1, 2]" "[0..<4] = [0::nat, 1, 2, 3]"
  by (simp_all add: eval_nat_numeral)

lemma x134_alternating: "x134 = alternating 3 1"
  by (simp add: x134_def alternating_def tab3_def tab2_def rows_def upt_small)

lemma x114_alternating: "x114 = alternating 1 1"
  by (simp add: x114_def alternating_def tab3_def tab2_def rows_def upt_small)

lemma twice_alternating: "twice (alternating t a) = alternating t (2 * a)"
  by (simp add: twice_def alternating_def map_tab3 if_distrib cong: if_cong)

lemma sum_upto_4:
  fixes f :: "nat \<Rightarrow> real"
  shows "(\<Sum>k\<in>{0..<4}. f k) = f 0 + f 1 + f 2 + f 3"
  by (simp add: eval_nat_numeral)

lemma alternating_rows:
  "alternating t a = \<lparr>shape = [1, t, 4], data = tab2 t 4 (\<lambda>r k. if even k then a else - a)\<rparr>"
proof -
  have "tab3 1 t 4 (\<lambda>i j k. if even k then a else - a)
      = tab2 (1 * t) 4 (\<lambda>r k. if even k then a else - a)"
    by (rule tab3_as_tab2)
  then show ?thesis by (simp add: alternating_def)
qed

lemma Normalize_alternating:
  assumes N: "normalized_shape N = 4" "ln_weight N = map (\<lambda>k. 1) [0..<4]"
    "ln_bias N = map (\<lambda>k. 0) [0..<4]" and eps: "0 < eps N"
  shows "Normalize N (alternating t a) = alternating t (a / sqrt (a\<^sup>2 + eps N))"
proof -
  let ?sg = "\<lambda>k::nat. if even k then a else - a"
  let ?xs = "tab2 t 4 (\<lambda>r. ?sg)"
  have ent: "?xs ! (r * 4 + k) = ?sg k" if "r < t" "k < 4" for r k
    using that by (rule nth_tab2)
  have mean: "row_mean 4 ?xs r = 0" if "r < t" for r
  proof -
    have "(\<Sum>k\<in>{0..<4}. ?xs ! (r * 4 + k)) = (\<Sum>k\<in>{0..<4}. ?sg k)"
      using that by (intro sum.cong refl) (simp add: ent)
    also have "\<dots> = 0" by (simp add: sum_upto_4)
    finally show ?thesis by (simp add: row_mean_def)
  qed
  have var: "row_var 4 ?xs r = a\<^sup>2" if "r < t" for r
  proof -
    have "(\<Sum>k\<in>{0..<4}. (?xs ! (r * 4 + k) - row_mean 4 ?xs r)\<^sup>2) = (\<Sum>k\<in>{0..<4}. (?sg k)\<^sup>2)"
      using that by (intro sum.cong refl) (simp add: ent mean)
    also have "\<dots> = 4 * a\<^sup>2" by (simp add: sum_upto_4)
    finally show ?thesis by (simp add: row_var_def)
  qed
  have "normalize N ?xs r k = (if even k then a / sqrt (a\<^sup>2 + eps N) else - (a / sqrt (a\<^sup>2 + eps N)))"
    if "r < t" "k < 4" for r k
    using that by (simp add: normalize_def N ent mean var)
  then have "tab2 t 4 (normalize N ?xs)
      = tab2 t 4 (\<lambda>r k. if even k then a / sqrt (a\<^sup>2 + eps N) else - (a / sqrt (a\<^sup>2 + eps N)))"
    by (intro tab2_cong) simp
  then show ?thesis
    by (simp add: Normalize_def alternating_rows N(1))
qed

lemma alternating_inject:
  assumes "0 < t" "alternating t u = alternating t v"
  shows "u = v"
proof -
  have "data (alternating t u) ! (0 * 4 + 0) = data (alternating t v) ! (0 * 4 + 0)"
    using assms(2) by simp
  then show "u = v"
    using assms(1) by (simp only: alternating_rows tensor.simps nth_tab2) simp
qed

section \<open>The regression scenario with identity weights\<close>

lemma normalize_twice:
  assumes init: "TransformerBlock_init bd (int e) (int h) msk sl mult q P = Inr B"
    and sh: "shape x = [b, t, e]"
  shows "LayerNorm_forward (norm1 B) (twice x) = Inr (Normalize (norm1 B) (twice x))"
    and "LayerNorm_forward (norm2 B) (twice (Normalize (norm1 B) (twice x)))
      = Inr (Normalize (norm2 B) (twice (Normalize (norm1 B) (twice x))))"
proof -
  note B = TransformerBlock_init_eq [OF init]
  have "shape (twice x) = [b, t, e]" using sh by (simp add: twice_def)
  then show "LayerNorm_forward (norm1 B) (twice x) = Inr (Normalize (norm1 B) (twice x))"
    by (rule LayerNorm_forward_Normalize) (simp_all add: B(2))
  have "shape (twice (Normalize (norm1 B) (twice x))) = [b, t, e]"
    using sh by (simp add: twice_def Normalize_def)
  then show "LayerNorm_forward (norm2 B) (twice (Normalize (norm1 B) (twice x)))
      = Inr (Normalize (norm2 B) (twice (Normalize (norm1 B) (twice x))))"
    by (rule LayerNorm_forward_Normalize) (simp_all add: B(3))
qed

lemma block134_init:
  "TransformerBlock_init builds_all (int 4) (int 1) False 3 4 0 (identity_block_params 4) = Inr block134"
proof -
  have "\<not> isl (TransformerBlock_init builds_all (int 4) (int 1) False 3 4 0 (identity_block_params 4))"
    by (simp add: isl_TransformerBlock_init)
  then show ?thesis by (simp add: block134_def)
qed

lemma alternating_shape: "shape (alternating t a) = [1, t, 4]" "wf (alternating t a)"
  by (simp_all add: alternating_def wf_def)

lemma block134_norms:
  "normalized_shape (norm1 block134) = 4" "ln_weight (norm1 block134) = map (\<lambda>k. 1) [0..<4]"
  "ln_bias (norm1 block134) = map (\<lambda>k. 0) [0..<4]" "eps (norm1 block134) = 1 / 100000"
  "normalized_shape (norm2 block134) = 4" "ln_weight (norm2 block134) = map (\<lambda>k. 1) [0..<4]"
  "ln_bias (norm2 block134) = map (\<lambda>k. 0) [0..<4]" "eps (norm2 block134) = 1 / 100000"
  using TransformerBlock_init_eq(2,3) [OF block134_init]
  by (simp_all add: identity_block_params_def)

lemma block134_attention:
  "SelfAttention_forward (attention block134) (alternating t a) = Inr (alternating t a)"
proof -
  have "SelfAttention_init builds_all (int 4) (int 1) False identity_attention_params = Inr (attention block134)"
    using TransformerBlock_init_eq(1) [OF block134_init] by (simp add: identity_block_params_def)
  then show ?thesis
  proof (rule attention_identity_on_equal_rows [OF _ alternating_shape])
    fix i j k :: nat assume "i < 1" "j < t" "k < 4"
    then show "at3 t 4 (data (alternating t a)) i j k = at3 t 4 (data (alternating t a)) i 0 k"
      by (simp add: alternating_def at3_tab3)
  qed
qed

lemma Normalize_block134:
  "Normalize (norm1 block134) (alternating t a) = alternating t (a / sqrt (a\<^sup>2 + 1 / 100000))"
  "Normalize (norm2 block134) (alternating t a) = alternating t (a / sqrt (a\<^sup>2 + 1 / 100000))"
  using Normalize_alternating [of "norm1 block134" t a]
    Normalize_alternating [of "norm2 block134" t a]
  by (simp_all add: block134_norms)

lemma block134_ff:
  "Sequential_forward (ff block134) (alternating t a) = Inr (alternating t a)"
  by (rule feed_forward_identity [OF block134_init _ alternating_shape]) simp

lemma block134_forward:
  "TransformerBlock_forward block134 True k1 k2 (alternating t a)
    = Inr (alternating t (2 * (2 * a / sqrt ((2 * a)\<^sup>2 + 1 / 100000))
        / sqrt ((2 * (2 * a / sqrt ((2 * a)\<^sup>2 + 1 / 100000)))\<^sup>2 + 1 / 100000)))"
proof -
  have "Sequential_forward (ff block134) (Normalize (norm1 block134) (twice (alternating t a)))
      = Inr (Normalize (norm1 block134) (twice (alternating t a)))"
    by (simp only: twice_alternating Normalize_block134 block134_ff)
  moreover have "Dropout_forward (dropout block134) True k z = z" for k z
    using TransformerBlock_init_eq(6) [OF block134_init] by (simp add: Dropout_forward_def)
  ultimately have "TransformerBlock_forward block134 True k1 k2 (alternating t a)
      = Inr (Normalize (norm2 block134)
          (twice (Normalize (norm1 block134) (twice (alternating t a)))))"
    unfolding TransformerBlock_forward_def Let_def
    by (simp add: block134_attention tadd_self
        normalize_twice [OF block134_init alternating_shape(1)])
  then show ?thesis
    by (simp only: twice_alternating Normalize_block134)
qed

lemma block134_twice_normalized:
  "andthen (LayerNorm_forward (norm1 block134) (alternating t a))
      (LayerNorm_forward (norm2 block134))
    = Inr (alternating t (a / sqrt (a\<^sup>2 + 1 / 100000)
        / sqrt ((a / sqrt (a\<^sup>2 + 1 / 100000))\<^sup>2 + 1 / 100000)))"
proof -
  have 1: "LayerNorm_forward (norm1 block134) (alternating t a)
      = Inr (Normalize (norm1 block134) (alternating t a))"
    using alternating_shape(1) by (rule LayerNorm_forward_Normalize) (simp_all add: block134_norms)
  have "shape (Normalize (norm1 block134) (alternating t a)) = [1, t, 4]"
    by (simp add: Normalize_def alternating_def)
  then have 2: "LayerNorm_forward (norm2 block134) (Normalize (norm1 block134) (alternating t a))
      = Inr (Normalize (norm2 block134) (Normalize (norm1 block134) (alternating t a)))"
    by (rule LayerNorm_forward_Normalize) (simp_all add: block134_norms)
  have "andthen (LayerNorm_forward (norm1 block134) (alternating t a))
      (LayerNorm_forward (norm2 block134))
      = Inr (Normalize (norm2 block134) (Normalize (norm1 block134) (alternating t a)))"
    by (simp add: 1 2)
  then show ?thesis
    by (simp only: Normalize_block134)
qed

lemma ratio_eq_imp_sq_eq:
  fixes u v c :: real
  assumes c: "0 < c" and eq: "u / sqrt (u\<^sup>2 + c) = v / sqrt (v\<^sup>2 + c)"
  shows "u\<^sup>2 = v\<^sup>2"
proof -
  have pu: "0 < u\<^sup>2 + c" and pv: "0 < v\<^sup>2 + c"
    using c by (simp_all add: add_nonneg_pos)
  have "(u / sqrt (u\<^sup>2 + c))\<^sup>2 = (v / sqrt (v\<^sup>2 + c))\<^sup>2"
    using eq by simp
  then have "u\<^sup>2 / (u\<^sup>2 + c) = v\<^sup>2 / (v\<^sup>2 + c)"
    using pu pv by (simp add: power_divide)
  then have "u\<^sup>2 * (v\<^sup>2 + c) = v\<^sup>2 * (u\<^sup>2 + c)"
    using pu pv by (simp add: frac_eq_eq)
  then have "u\<^sup>2 * c = v\<^sup>2 * c"
    by (simp add: algebra_simps)
  then show ?thesis using c by simp
qed

lemma amplitudes_differ:
  "2 * (2 * 1 / sqrt ((2 * 1)\<^sup>2 + 1 / 100000))
      / sqrt ((2 * (2 * 1 / sqrt ((2 * 1)\<^sup>2 + 1 / 100000)))\<^sup>2 + 1 / 100000)
    \<noteq> 1 / sqrt (1\<^sup>2 + 1 / 100000) / sqrt ((1 / sqrt (1\<^sup>2 + 1 / 100000))\<^sup>2 + (1 / 100000 :: real))"
proof
  assume "2 * (2 * 1 / sqrt ((2 * 1)\<^sup>2 + 1 / 100000))
      / sqrt ((2 * (2 * 1 / sqrt ((2 * 1)\<^sup>2 + 1 / 100000)))\<^sup>2 + 1 / 100000)
    = 1 / sqrt (1\<^sup>2 + 1 / 100000) / sqrt ((1 / sqrt (1\<^sup>2 + 1 / 100000))\<^sup>2 + (1 / 100000 :: real))"
  then have "(2 * (2 * 1 / sqrt ((2 * 1)\<^sup>2 + 1 / 100000)))\<^sup>2 = (1 / sqrt (1\<^sup>2 + (1 / 100000 :: real)))\<^sup>2"
    by (rule ratio_eq_imp_sq_eq [rotated]) simp
  then show False
    by (simp add: power_mult_distrib power_divide)
qed

lemma block134_differs:
  assumes "0 < t"
  shows "TransformerBlock_forward block134 True k1 k2 (alternating t 1)
    \<noteq> andthen (LayerNorm_forward (norm1 block134) (alternating t 1))
        (LayerNorm_forward (norm2 block134))"
proof
  assume "TransformerBlock_forward block134 True k1 k2 (alternating t 1)
    = andthen (LayerNorm_forward (norm1 block134) (alternating t 1))
        (LayerNorm_forward (norm2 block134))"
  then have "alternating t (2 * (2 * 1 / sqrt ((2 * 1)\<^sup>2 + 1 / 100000))
        / sqrt ((2 * (2 * 1 / sqrt ((2 * 1)\<^sup>2 + 1 / 100000)))\<^sup>2 + 1 / 100000))
      = alternating t (1 / sqrt (1\<^sup>2 + 1 / 100000)
        / sqrt ((1 / sqrt (1\<^sup>2 + 1 / 100000))\<^sup>2 + 1 / 100000))"
    by (simp only: block134_forward block134_twice_normalized sum.inject)
  then show False
    using alternating_inject [OF assms] amplitudes_differ by blast
qed

text \<open>
  With one sequence position the attention matrix is the single weight \<open>1\<close>: with identity
  weights and one head the attention sublayer is then the identity on every input.
\<close>

lemma attention_identity_single_position:
  assumes "SelfAttention_init bd (int e) (int 1) msk identity_attention_params = Inr m"
    and "shape x = [b, 1, e]" and "wf x"
  shows "SelfAttention_forward m x = Inr x"
  using assms by (rule attention_identity_on_equal_rows) simp

section \<open>Claims\<close>

text \<open>
  C9, as stated: constructing a component with a non-positive embedding width or a
  non-positive head count fails at construction time.  The constructors contain no check
  of their arguments.  With a library that builds zero-sized layers, a \<^verbatim>\<open>SelfAttention\<close> with
  embedding width 4 and 0 heads is constructed without error.
\<close>

theorem C9_zero_heads_constructed:
  "\<not> isl (SelfAttention_init builds_all 4 0 False identity_attention_params)"
  by (simp add: isl_SelfAttention_init)

text \<open>
  C9, amended: the constructors validate neither the embedding width nor the head count.
  Construction fails exactly when the tensor library does not build one of the layers: a
  layer with a negative dimension (\<open>emb < 0\<close>, \<open>emb * heads < 0\<close>, for a block also
  \<open>ff_hidden_mult * emb < 0\<close>), a layer the library does not build, or, for a block, a dropout
  probability outside \<open>[0, 1]\<close>.  With a library that builds every layer of non-negative
  dimensions, a \<^verbatim>\<open>SelfAttention\<close> fails exactly for \<open>emb < 0\<close> or \<open>emb * heads < 0\<close>, so a zero
  width and a zero head count are accepted; with a library that does not build a layer
  without inputs, every non-positive width or head count fails.
\<close>

theorem C9_construction_fails_iff:
  "(isl (SelfAttention_init bd e h msk P) \<longleftrightarrow>
      e < 0 \<or> e * h < 0 \<or> \<not> bd (nat e) (nat (e * h)) \<or> \<not> bd (nat (e * h)) (nat e)) \<and>
   (isl (TransformerBlock_init bd e h msk sl mult q Q) \<longleftrightarrow>
      e < 0 \<or> e * h < 0 \<or> \<not> bd (nat e) (nat (e * h)) \<or> \<not> bd (nat (e * h)) (nat e) \<or>
      mult * e < 0 \<or> \<not> bd (nat e) (nat (mult * e)) \<or> \<not> bd (nat (mult * e)) (nat e) \<or>
      q < 0 \<or> 1 < q) \<and>
   (isl (SelfAttention_init builds_all e h msk P) \<longleftrightarrow> e < 0 \<or> e * h < 0) \<and>
   (e \<le> 0 \<or> h \<le> 0 \<longrightarrow> isl (SelfAttention_init builds_nonzero_input e h msk P))"
proof -
  have "isl (SelfAttention_init builds_nonzero_input e h msk P)" if "e \<le> 0 \<or> h \<le> 0"
  proof (cases "e < 0 \<or> e * h < 0")
    case True
    then show ?thesis by (auto simp add: isl_SelfAttention_init)
  next
    case False
    then have "e = 0 \<or> e * h = 0"
      using that by (auto simp add: mult_less_0_iff)
    then show ?thesis
      by (auto simp add: isl_SelfAttention_init builds_nonzero_input_def)
  qed
  then show ?thesis
    by (simp add: isl_SelfAttention_init isl_TransformerBlock_init)
qed

theorem C9_construction_fails_iff_witness:
  "isl (SelfAttention_init builds_all 4 (- 2) False identity_attention_params) \<and>
   \<not> isl (SelfAttention_init builds_all 0 0 True identity_attention_params) \<and>
   isl (SelfAttention_init builds_nonzero_input 4 0 False identity_attention_params)"
  using C9_construction_fails_iff [of builds_all 4 "- 2" False identity_attention_params]
    C9_construction_fails_iff [of builds_all 0 0 True identity_attention_params]
    C9_construction_fails_iff [of builds_all 4 0 False identity_attention_params]
  by (simp add: builds_nonzero_input_def)

text \<open>
  C1: with the causal mask enabled, in every slice (batch element and head) and every row
  \<open>i\<close> of the attention matrix after the softmax, the weight at column \<open>j > i\<close> is exactly
  \<open>0\<close> and the weights at the visible columns \<open>j \<le> i\<close> sum to \<open>1\<close>; the computation of the
  matrix returns, so no softmax denominator is zero.  The module is any constructed
  \<^verbatim>\<open>SelfAttention(e, h, mask=True)\<close>, the input any tensor of shape \<open>(b, t, e)\<close>.
\<close>

theorem C1_causal_rows:
  assumes "SelfAttention_init bd (int e) (int h) True P = Inr m"
    and "shape x = [b, t, e]" and "wf x"
  shows "\<exists>A V. attention_matrix m b t e x = Inr (A, V) \<and> shape A = [b * h, t, t] \<and> wf A \<and>
    (\<forall>s<b * h. \<forall>i<t.
       (\<forall>j<t. i < j \<longrightarrow> at3 t t (data A) s i j = 0) \<and>
       (\<Sum>j\<in>{0..i}. at3 t t (data A) s i j) = 1)"
proof -
  have ld: "layer_dims m e h" and mk: "mask m"
    using SelfAttention_init_Inr [OF assms(1)] by simp_all
  have tx: "seq_len x = t" using assms(2) by (simp add: seq_len_def)
  let ?A = "\<lparr>shape = [b * h, t, t], data = tab3 (b * h) t t (attn_weight m x)\<rparr>"
  let ?V = "\<lparr>shape = [b * h, t, e], data = tab3 (b * h) t e (head_entry (tovalues m) h x)\<rparr>"
  have am: "attention_matrix m b t e x = Inr (?A, ?V)"
    using assms(2) ld by (rule attention_matrix_eq)
  have rows: "(\<forall>j<t. i < j \<longrightarrow> at3 t t (data ?A) s i j = 0) \<and>
       (\<Sum>j\<in>{0..i}. at3 t t (data ?A) s i j) = 1" if "s < b * h" "i < t" for s i
  proof
    show "\<forall>j<t. i < j \<longrightarrow> at3 t t (data ?A) s i j = 0"
      using that mk by (simp add: at3_tab3 attn_weight_masked_zero)
    have "(\<Sum>j\<in>{0..i}. at3 t t (data ?A) s i j) = (\<Sum>j\<in>{0..i}. attn_weight m x s i j)"
      using that by (intro sum.cong refl) (simp add: at3_tab3)
    then show "(\<Sum>j\<in>{0..i}. at3 t t (data ?A) s i j) = 1"
      using attn_weight_visible_sum [OF mk, of i x s] that by (simp add: tx)
  qed
  have "wf ?A" by (simp add: wf_def)
  with am rows show ?thesis by (intro exI [of _ ?A] exI [of _ ?V]) simp
qed

theorem C1_causal_rows_witness:
  "\<not> isl (SelfAttention_init builds_all (int 2) (int 1) True identity_attention_params) \<and>
   shape x222 = [1, 2, 2] \<and> wf x222 \<and>
   (\<exists>A V. attention_matrix (projr (SelfAttention_init builds_all (int 2) (int 1) True identity_attention_params))
             1 2 2 x222 = Inr (A, V) \<and> shape A = [1 * 1, 2, 2] \<and> wf A \<and>
    (\<forall>s<1 * 1. \<forall>i<2.
       (\<forall>j<2. i < j \<longrightarrow> at3 2 2 (data A) s i j = 0) \<and>
       (\<Sum>j\<in>{0..i}. at3 2 2 (data A) s i j) = 1))"
proof -
  have 1: "\<not> isl (SelfAttention_init builds_all (int 2) (int 1) True identity_attention_params)"
    by (simp add: isl_SelfAttention_init)
  then have 2: "SelfAttention_init builds_all (int 2) (int 1) True identity_attention_params
      = Inr (projr (SelfAttention_init builds_all (int 2) (int 1) True identity_attention_params))"
    by simp
  have 3: "shape x222 = [1, 2, 2]" "wf x222" by (simp_all add: x222_def wf_def)
  show ?thesis
    using 1 3 C1_causal_rows [OF 2 3] by simp
qed

text \<open>
  C5: in a constructed \<^verbatim>\<open>SelfAttention(e, h)\<close> the to-keys, to-queries and to-values layers
  map width \<open>e\<close> to \<open>h * e\<close> without bias and the unify-heads layer maps \<open>h * e\<close> to \<open>e\<close>
  with bias.  For an input of shape \<open>(b, t, e)\<close> each projection, reshaped, has shape
  \<open>(b, t, h, e)\<close>, and entry \<open>l\<close> of head \<open>k\<close> at position \<open>(i, j)\<close> is the sum over the full
  width \<open>e\<close> of the input row against row \<open>k * e + l\<close> of the weight: every head reads the
  whole embedding, not a part of width \<open>e / h\<close>.
\<close>

theorem C5_projections:
  assumes init: "SelfAttention_init bd (int e) (int h) msk P = Inr m"
    and sh: "shape x = [b, t, e]" and "wf x"
  shows
    "in_features (tokeys m) = e \<and> out_features (tokeys m) = h * e \<and> bias (tokeys m) = None \<and>
     in_features (toqueries m) = e \<and> out_features (toqueries m) = h * e \<and> bias (toqueries m) = None \<and>
     in_features (tovalues m) = e \<and> out_features (tovalues m) = h * e \<and> bias (tovalues m) = None \<and>
     in_features (unifyheads m) = h * e \<and> out_features (unifyheads m) = e \<and>
     bias (unifyheads m) = Some (map (bu P) [0..<e]) \<and>
     (\<exists>K. project_heads (tokeys m) b t (heads m) e x = Inr K \<and> shape K = [b, t, h, e] \<and> wf K \<and>
       (\<forall>i<b. \<forall>j<t. \<forall>k<h. \<forall>l<e.
          data K ! (((i * t + j) * h + k) * e + l)
            = (\<Sum>c\<in>{0..<e}. at3 t e (data x) i j c * wk P (k * e + l) c))) \<and>
     (\<exists>Q. project_heads (toqueries m) b t (heads m) e x = Inr Q \<and> shape Q = [b, t, h, e] \<and> wf Q \<and>
       (\<forall>i<b. \<forall>j<t. \<forall>k<h. \<forall>l<e.
          data Q ! (((i * t + j) * h + k) * e + l)
            = (\<Sum>c\<in>{0..<e}. at3 t e (data x) i j c * wq P (k * e + l) c))) \<and>
     (\<exists>V. project_heads (tovalues m) b t (heads m) e x = Inr V \<and> shape V = [b, t, h, e] \<and> wf V \<and>
       (\<forall>i<b. \<forall>j<t. \<forall>k<h. \<forall>l<e.
          data V ! (((i * t + j) * h + k) * e + l)
            = (\<Sum>c\<in>{0..<e}. at3 t e (data x) i j c * wv P (k * e + l) c)))"
proof -
  note m = SelfAttention_init_eq [OF init]
  have hm: "heads m = int h" by (subst m) simp
  have k: "tokeys m = \<lparr>in_features = e, out_features = e * h, weight = tab2 (e * h) e (wk P), bias = None\<rparr>"
    by (subst m) simp
  have q: "toqueries m = \<lparr>in_features = e, out_features = e * h, weight = tab2 (e * h) e (wq P), bias = None\<rparr>"
    by (subst m) simp
  have v: "tovalues m = \<lparr>in_features = e, out_features = e * h, weight = tab2 (e * h) e (wv P), bias = None\<rparr>"
    by (subst m) simp
  have u: "unifyheads m = \<lparr>in_features = h * e, out_features = e, weight = tab2 e (h * e) (wu P),
        bias = Some (map (bu P) [0..<e])\<rparr>"
    by (subst m) simp
  have dims: "in_features (tokeys m) = e \<and> out_features (tokeys m) = h * e \<and> bias (tokeys m) = None \<and>
     in_features (toqueries m) = e \<and> out_features (toqueries m) = h * e \<and> bias (toqueries m) = None \<and>
     in_features (tovalues m) = e \<and> out_features (tovalues m) = h * e \<and> bias (tovalues m) = None \<and>
     in_features (unifyheads m) = h * e \<and> out_features (unifyheads m) = e \<and>
     bias (unifyheads m) = Some (map (bu P) [0..<e])"
    by (simp add: k q v u mult.commute)
  show ?thesis
    unfolding hm
    using dims project_heads_entries [OF k sh] project_heads_entries [OF q sh]
      project_heads_entries [OF v sh]
    by blast
qed

theorem C5_projections_witness:
  "\<not> isl (SelfAttention_init builds_all (int 2) (int 1) True identity_attention_params) \<and>
   shape x222 = [1, 2, 2] \<and> wf x222 \<and>
   out_features (tokeys (projr (SelfAttention_init builds_all (int 2) (int 1) True identity_attention_params)))
     = 1 * 2 \<and>
   bias (tokeys (projr (SelfAttention_init builds_all (int 2) (int 1) True identity_attention_params))) = None"
proof -
  have 1: "\<not> isl (SelfAttention_init builds_all (int 2) (int 1) True identity_attention_params)"
    by (simp add: isl_SelfAttention_init)
  then have 2: "SelfAttention_init builds_all (int 2) (int 1) True identity_attention_params
      = Inr (projr (SelfAttention_init builds_all (int 2) (int 1) True identity_attention_params))"
    by simp
  have 3: "shape x222 = [1, 2, 2]" "wf x222" by (simp_all add: x222_def wf_def)
  show ?thesis
    using 1 3 C5_projections [OF 2 3] by blast
qed

text \<open>
  C8: for a constructed \<^verbatim>\<open>SelfAttention(e, h)\<close> and an input of shape \<open>(b, t, e')\<close>, the
  forward pass fails if and only if \<open>e' \<noteq> e\<close>, and then with the assertion on the embedding
  dimension and no result.  The assertion on the size of the score tensor fails for every
  tensor whose shape is not \<open>(b * h, t, t)\<close>; when \<open>e' = e\<close> the computation up to the
  attention matrix returns, and the forward pass never fails with that assertion.
\<close>

theorem C8_shape_errors:
  assumes init: "SelfAttention_init bd (int e) (int h) msk P = Inr m"
    and sh: "shape x = [b, t, e']" and "wf x"
  shows "(isl (SelfAttention_forward m x) \<longleftrightarrow> e' \<noteq> e) \<and>
    (e' \<noteq> e \<longrightarrow> SelfAttention_forward m x = Inl (AssertionError EmbeddingDim)) \<and>
    (\<forall>d. shape d \<noteq> [b * h, t, t] \<longrightarrow>
       assert_dot_size b (heads m) t d = Inl (AssertionError DotSize)) \<and>
    (e' = e \<longrightarrow> \<not> isl (attention_matrix m b t e x)) \<and>
    SelfAttention_forward m x \<noteq> Inl (AssertionError DotSize)"
proof -
  have ld: "layer_dims m e h"
    using SelfAttention_init_Inr [OF init] by simp
  then have em: "emb m = int e" and hm: "heads m = int h"
    by (simp_all add: layer_dims_def)
  have bad: "SelfAttention_forward m x = Inl (AssertionError EmbeddingDim)" if "e' \<noteq> e"
    using that by (simp add: SelfAttention_forward_def sh em)
  have good: "SelfAttention_forward m x
      = Inr \<lparr>shape = [b, t, e], data = tab3 b t e (attention_at m x)\<rparr>" if "e' = e"
    using sh ld that by (intro SelfAttention_forward_eq) simp_all
  have am: "\<not> isl (attention_matrix m b t e x)" if "e' = e"
    using attention_matrix_eq [of x b t e m h] sh ld that by simp
  have ad: "assert_dot_size b (heads m) t d = Inl (AssertionError DotSize)"
    if "shape d \<noteq> [b * h, t, t]" for d
  proof -
    have "(map int (shape d) = map int [b * h, t, t]) = (shape d = [b * h, t, t])"
      by (rule inj_map_eq_map) (simp add: inj_on_def)
    moreover have "map int [b * h, t, t] = [int b * int h, int t, int t]"
      by simp
    ultimately have "map int (shape d) \<noteq> [int b * int h, int t, int t]"
      using that by simp
    then show ?thesis by (simp add: assert_dot_size_def hm)
  qed
  show ?thesis
    using bad good am ad by (cases "e' = e") auto
qed

theorem C8_shape_errors_witness:
  "\<not> isl (SelfAttention_init builds_all (int 3) (int 1) False identity_attention_params) \<and>
   \<not> isl (SelfAttention_init builds_all (int 2) (int 1) False identity_attention_params) \<and>
   shape x222 = [1, 2, 2] \<and> wf x222 \<and>
   SelfAttention_forward
     (projr (SelfAttention_init builds_all (int 3) (int 1) False identity_attention_params)) x222
     = Inl (AssertionError EmbeddingDim) \<and>
   \<not> isl (SelfAttention_forward
     (projr (SelfAttention_init builds_all (int 2) (int 1) False identity_attention_params)) x222)"
proof -
  have 1: "\<not> isl (SelfAttention_init builds_all (int 3) (int 1) False identity_attention_params)"
    and 2: "\<not> isl (SelfAttention_init builds_all (int 2) (int 1) False identity_attention_params)"
    by (simp_all add: isl_SelfAttention_init)
  have 3: "SelfAttention_init builds_all (int 3) (int 1) False identity_attention_params
      = Inr (projr (SelfAttention_init builds_all (int 3) (int 1) False identity_attention_params))"
    using 1 by simp
  have 4: "SelfAttention_init builds_all (int 2) (int 1) False identity_attention_params
      = Inr (projr (SelfAttention_init builds_all (int 2) (int 1) False identity_attention_params))"
    using 2 by simp
  have 5: "shape x222 = [1, 2, 2]" "wf x222" by (simp_all add: x222_def wf_def)
  show ?thesis
    using 1 2 5 C8_shape_errors [OF 3 5] C8_shape_errors [OF 4 5] by simp
qed

text \<open>
  C2: for a constructed \<^verbatim>\<open>SelfAttention(e, h)\<close>, a constructed \<^verbatim>\<open>TransformerBlock\<close> of the
  same width, and every input of shape \<open>(b, t, e)\<close>, both forward passes return a tensor of
  shape \<open>(b, t, e)\<close> whose storage has \<open>b * t * e\<close> elements, in either mode and for every
  draw of the dropout.
\<close>

theorem C2_shape_invariance:
  assumes "SelfAttention_init bd (int e) (int h) msk P = Inr m"
    and "TransformerBlock_init bd (int e) (int h) msk sl mult q Q = Inr B"
    and "shape x = [b, t, e]" and "wf x"
  shows "(\<exists>y. SelfAttention_forward m x = Inr y \<and> shape y = [b, t, e] \<and> wf y) \<and>
    (\<exists>z. TransformerBlock_forward B tr k1 k2 x = Inr z \<and> shape z = [b, t, e] \<and> wf z)"
proof
  have ld: "layer_dims m e h"
    using SelfAttention_init_Inr [OF assms(1)] by simp
  have "SelfAttention_forward m x
      = Inr \<lparr>shape = [b, t, e], data = tab3 b t e (attention_at m x)\<rparr>"
    using assms(3) ld by (rule SelfAttention_forward_eq)
  then show "\<exists>y. SelfAttention_forward m x = Inr y \<and> shape y = [b, t, e] \<and> wf y"
    by (simp add: wf_def)
  obtain n2 where "shape n2 = [b, t, e]" "wf n2"
    "TransformerBlock_forward B tr k1 k2 x = Inr (Dropout_forward (dropout B) tr k2 n2)"
    using block_steps [OF assms(2,3), of tr k1 k2] by blast
  then show "\<exists>z. TransformerBlock_forward B tr k1 k2 x = Inr z \<and> shape z = [b, t, e] \<and> wf z"
    by (simp add: wf_def)
qed

theorem C2_shape_invariance_witness:
  "\<not> isl (SelfAttention_init builds_all (int 2) (int 1) False identity_attention_params) \<and>
   \<not> isl (TransformerBlock_init builds_all (int 2) (int 1) False 7 4 0 (identity_block_params 2)) \<and>
   shape x222 = [1, 2, 2] \<and> wf x222 \<and>
   (\<exists>y. SelfAttention_forward (projr (SelfAttention_init builds_all (int 2) (int 1) False identity_attention_params)) x222 = Inr y \<and> shape y = [1, 2, 2] \<and> wf y) \<and>
   (\<exists>z. TransformerBlock_forward (projr (TransformerBlock_init builds_all (int 2) (int 1) False 7 4 0 (identity_block_params 2))) True (\<lambda>i. True) (\<lambda>i. True) x222 = Inr z \<and>
        shape z = [1, 2, 2] \<and> wf z)"
proof -
  have 1: "\<not> isl (SelfAttention_init builds_all (int 2) (int 1) False identity_attention_params)"
    by (simp add: isl_SelfAttention_init)
  have 2: "\<not> isl (TransformerBlock_init builds_all (int 2) (int 1) False 7 4 0 (identity_block_params 2))"
    by (simp add: isl_TransformerBlock_init)
  have 3: "SelfAttention_init builds_all (int 2) (int 1) False identity_attention_params = Inr (projr (SelfAttention_init builds_all (int 2) (int 1) False identity_attention_params))"
    using 1 by simp
  have 4: "TransformerBlock_init builds_all (int 2) (int 1) False 7 4 0 (identity_block_params 2) = Inr (projr (TransformerBlock_init builds_all (int 2) (int 1) False 7 4 0 (identity_block_params 2)))"
    using 2 by simp
  have 5: "shape x222 = [1, 2, 2]" "wf x222" by (simp_all add: x222_def wf_def)
  show ?thesis
    using 1 2 5 C2_shape_invariance [OF 3 4 5, of True "\<lambda>i. True" "\<lambda>i. True"] by blast
qed

text \<open>
  C3: for queries and keys of shape \<open>(n, t, e)\<close> with \<open>e > 0\<close>, dividing the queries by
  \<open>sqrt e\<close> before the batched product with the transposed keys gives the same score tensor
  as dividing both queries and keys by the fourth root of \<open>e\<close>; the product is defined.  Over
  the reals the two are equal; the floating-point results agree up to rounding.
\<close>

theorem C3_scaling_equivalence:
  assumes Q: "shape Q = [n, t, e]" "wf Q" and K: "shape K = [n, t, e]" "wf K" and e: "0 < e"
  shows "scaled_dot e Q K = scaled_dot_both e Q K \<and> \<not> isl (scaled_dot e Q K)"
proof -
  let ?q = "at3 t e (data Q)" and ?k = "at3 t e (data K)"
  let ?a = "real e powr (1 / 4)"
  have Qe: "Q = \<lparr>shape = [n, t, e], data = tab3 n t e ?q\<rparr>" using Q by (rule tensor_tab3)
  have Ke: "K = \<lparr>shape = [n, t, e], data = tab3 n t e ?k\<rparr>" using K by (rule tensor_tab3)
  have s: "sqrt (real e) \<noteq> 0" and a: "?a \<noteq> 0" using e by simp_all
  have once: "scaled_dot e \<lparr>shape = [n, t, e], data = tab3 n t e ?q\<rparr>
        \<lparr>shape = [n, t, e], data = tab3 n t e ?k\<rparr>
      = Inr \<lparr>shape = [n, t, t],
             data = tab3 n t t (\<lambda>i r c. \<Sum>j\<in>{0..<e}. ?q i r j / sqrt (real e) * ?k i c j)\<rparr>"
    using s by (simp add: scaled_dot_def tdiv_tab transpose12_3d bmm_tab)
  have both: "scaled_dot_both e \<lparr>shape = [n, t, e], data = tab3 n t e ?q\<rparr>
        \<lparr>shape = [n, t, e], data = tab3 n t e ?k\<rparr>
      = Inr \<lparr>shape = [n, t, t],
             data = tab3 n t t (\<lambda>i r c. \<Sum>j\<in>{0..<e}. ?q i r j / ?a * (?k i c j / ?a))\<rparr>"
    using a by (simp add: scaled_dot_both_def tdiv_tab transpose12_3d bmm_tab)
  have "?q i r j / sqrt (real e) * ?k i c j = ?q i r j / ?a * (?k i c j / ?a)" for i r c j
    by (simp add: fourth_root_sq [OF e, symmetric])
  then have "scaled_dot e \<lparr>shape = [n, t, e], data = tab3 n t e ?q\<rparr>
        \<lparr>shape = [n, t, e], data = tab3 n t e ?k\<rparr>
      = scaled_dot_both e \<lparr>shape = [n, t, e], data = tab3 n t e ?q\<rparr>
        \<lparr>shape = [n, t, e], data = tab3 n t e ?k\<rparr>"
    by (simp only: once both)
  moreover have "\<not> isl (scaled_dot e \<lparr>shape = [n, t, e], data = tab3 n t e ?q\<rparr>
        \<lparr>shape = [n, t, e], data = tab3 n t e ?k\<rparr>)"
    by (simp only: once) simp
  ultimately show ?thesis
    using Qe Ke by simp
qed

theorem C3_scaling_equivalence_witness:
  "shape x222 = [1, 2, 2] \<and> wf x222 \<and> (0::nat) < 2 \<and>
   scaled_dot 2 x222 x222 = scaled_dot_both 2 x222 x222 \<and> \<not> isl (scaled_dot 2 x222 x222)"
proof -
  have 1: "shape x222 = [1, 2, 2]" "wf x222" by (simp_all add: x222_def wf_def)
  have 2: "(0::nat) < 2" by simp
  show ?thesis
    using 1 2 C3_scaling_equivalence [OF 1 1 2] by blast
qed

text \<open>
  C4: for a constructed block and an input of shape \<open>(b, t, e)\<close> every step of the forward
  pass returns, and the result is the fixed sequence: attention; residual add and first
  normalization; dropout; feed-forward, that is a linear layer from \<open>e\<close> to
  \<open>ff_hidden_mult * e\<close>, the rectifier, and a linear layer back to \<open>e\<close>; residual add and
  second normalization; dropout.
\<close>

theorem C4_block_sequence:
  assumes "TransformerBlock_init bd (int e) (int h) msk sl mult q P = Inr B"
    and "shape x = [b, t, e]" and "wf x"
  shows "in_features (ff0 (ff B)) = e \<and> out_features (ff0 (ff B)) = nat (mult * int e) \<and>
    in_features (ff2 (ff B)) = nat (mult * int e) \<and> out_features (ff2 (ff B)) = e \<and>
    (\<exists>attended s1 n1 hid fed s2 n2.
      SelfAttention_forward (attention B) x = Inr attended \<and>
      tadd attended x = Inr s1 \<and>
      LayerNorm_forward (norm1 B) s1 = Inr n1 \<and>
      Linear_forward (ff0 (ff B)) (Dropout_forward (dropout B) tr k1 n1) = Inr hid \<and>
      Linear_forward (ff2 (ff B)) (ReLU hid) = Inr fed \<and>
      tadd fed (Dropout_forward (dropout B) tr k1 n1) = Inr s2 \<and>
      LayerNorm_forward (norm2 B) s2 = Inr n2 \<and>
      TransformerBlock_forward B tr k1 k2 x = Inr (Dropout_forward (dropout B) tr k2 n2))"
proof -
  note B = TransformerBlock_init_eq [OF assms(1)]
  have "in_features (ff0 (ff B)) = e \<and> out_features (ff0 (ff B)) = nat (mult * int e) \<and>
    in_features (ff2 (ff B)) = nat (mult * int e) \<and> out_features (ff2 (ff B)) = e"
    by (simp add: B(4,5))
  then show ?thesis
    using block_steps [OF assms(1,2), of tr k1 k2] by blast
qed

theorem C4_block_sequence_witness:
  "\<not> isl (TransformerBlock_init builds_all (int 2) (int 1) False 7 4 0 (identity_block_params 2)) \<and>
   shape x222 = [1, 2, 2] \<and> wf x222 \<and>
   in_features (ff0 (ff (projr (TransformerBlock_init builds_all (int 2) (int 1) False 7 4 0 (identity_block_params 2))))) = 2 \<and> out_features (ff0 (ff (projr (TransformerBlock_init builds_all (int 2) (int 1) False 7 4 0 (identity_block_params 2))))) = nat (4 * int 2) \<and>
   in_features (ff2 (ff (projr (TransformerBlock_init builds_all (int 2) (int 1) False 7 4 0 (identity_block_params 2))))) = nat (4 * int 2) \<and> out_features (ff2 (ff (projr (TransformerBlock_init builds_all (int 2) (int 1) False 7 4 0 (identity_block_params 2))))) = 2 \<and>
   (\<exists>attended s1 n1 hid fed s2 n2.
      SelfAttention_forward (attention (projr (TransformerBlock_init builds_all (int 2) (int 1) False 7 4 0 (identity_block_params 2)))) x222 = Inr attended \<and>
      tadd attended x222 = Inr s1 \<and>
      LayerNorm_forward (norm1 (projr (TransformerBlock_init builds_all (int 2) (int 1) False 7 4 0 (identity_block_params 2)))) s1 = Inr n1 \<and>
      Linear_forward (ff0 (ff (projr (TransformerBlock_init builds_all (int 2) (int 1) False 7 4 0 (identity_block_params 2))))) (Dropout_forward (dropout (projr (TransformerBlock_init builds_all (int 2) (int 1) False 7 4 0 (identity_block_params 2)))) True (\<lambda>i. True) n1) = Inr hid \<and>
      Linear_forward (ff2 (ff (projr (TransformerBlock_init builds_all (int 2) (int 1) False 7 4 0 (identity_block_params 2))))) (ReLU hid) = Inr fed \<and>
      tadd fed (Dropout_forward (dropout (projr (TransformerBlock_init builds_all (int 2) (int 1) False 7 4 0 (identity_block_params 2)))) True (\<lambda>i. True) n1) = Inr s2 \<and>
      LayerNorm_forward (norm2 (projr (TransformerBlock_init builds_all (int 2) (int 1) False 7 4 0 (identity_block_params 2)))) s2 = Inr n2 \<and>
      TransformerBlock_forward (projr (TransformerBlock_init builds_all (int 2) (int 1) False 7 4 0 (identity_block_params 2))) True (\<lambda>i. True) (\<lambda>i. True) x222
        = Inr (Dropout_forward (dropout (projr (TransformerBlock_init builds_all (int 2) (int 1) False 7 4 0 (identity_block_params 2)))) True (\<lambda>i. True) n2))"
proof -
  have 2: "\<not> isl (TransformerBlock_init builds_all (int 2) (int 1) False 7 4 0 (identity_block_params 2))"
    by (simp add: isl_TransformerBlock_init)
  have 4: "TransformerBlock_init builds_all (int 2) (int 1) False 7 4 0 (identity_block_params 2) = Inr (projr (TransformerBlock_init builds_all (int 2) (int 1) False 7 4 0 (identity_block_params 2)))"
    using 2 by simp
  have 5: "shape x222 = [1, 2, 2]" "wf x222" by (simp_all add: x222_def wf_def)
  show ?thesis
    using 2 5 C4_block_sequence [OF 4 5, of True "\<lambda>i. True" "\<lambda>i. True"] by blast
qed

text \<open>
  C10: two blocks constructed with the same arguments and parameter values except for
  \<^verbatim>\<open>seq_length\<close> are the same block; on every input of shape \<open>(b, t, e)\<close>, whatever \<open>t\<close> is,
  they return the same result, and the forward pass returns: the sequence length of the
  input is never compared with \<^verbatim>\<open>seq_length\<close>.
\<close>

theorem C10_seq_length_unused:
  assumes "TransformerBlock_init bd (int e) (int h) msk sl mult q P = Inr B"
    and "TransformerBlock_init bd (int e) (int h) msk sl' mult q P = Inr B'"
    and "shape x = [b, t, e]" and "wf x"
  shows "B = B' \<and>
    TransformerBlock_forward B tr k1 k2 x = TransformerBlock_forward B' tr k1 k2 x \<and>
    \<not> isl (TransformerBlock_forward B tr k1 k2 x)"
proof -
  have "TransformerBlock_init bd (int e) (int h) msk sl mult q P
      = TransformerBlock_init bd (int e) (int h) msk sl' mult q P"
    by (simp add: TransformerBlock_init_def)
  then have "B = B'" using assms(1,2) by simp
  moreover have "\<not> isl (TransformerBlock_forward B tr k1 k2 x)"
    using block_steps [OF assms(1,3), of tr k1 k2] by auto
  ultimately show ?thesis by simp
qed

theorem C10_seq_length_unused_witness:
  "\<not> isl (TransformerBlock_init builds_all (int 2) (int 1) True 1 4 0 (identity_block_params 2)) \<and>
   \<not> isl (TransformerBlock_init builds_all (int 2) (int 1) True 100 4 0 (identity_block_params 2)) \<and>
   shape x222 = [1, 2, 2] \<and> wf x222 \<and>
   projr (TransformerBlock_init builds_all (int 2) (int 1) True 1 4 0 (identity_block_params 2))
     = projr (TransformerBlock_init builds_all (int 2) (int 1) True 100 4 0 (identity_block_params 2)) \<and>
   TransformerBlock_forward
       (projr (TransformerBlock_init builds_all (int 2) (int 1) True 1 4 0 (identity_block_params 2)))
       True (\<lambda>i. True) (\<lambda>i. True) x222
     = TransformerBlock_forward
       (projr (TransformerBlock_init builds_all (int 2) (int 1) True 100 4 0 (identity_block_params 2)))
       True (\<lambda>i. True) (\<lambda>i. True) x222 \<and>
   \<not> isl (TransformerBlock_forward
       (projr (TransformerBlock_init builds_all (int 2) (int 1) True 1 4 0 (identity_block_params 2)))
       True (\<lambda>i. True) (\<lambda>i. True) x222)"
proof -
  have 1: "\<not> isl (TransformerBlock_init builds_all (int 2) (int 1) True 1 4 0 (identity_block_params 2))"
    and 2: "\<not> isl (TransformerBlock_init builds_all (int 2) (int 1) True 100 4 0 (identity_block_params 2))"
    by (simp_all add: isl_TransformerBlock_init)
  have 3: "TransformerBlock_init builds_all (int 2) (int 1) True 1 4 0 (identity_block_params 2)
      = Inr (projr (TransformerBlock_init builds_all (int 2) (int 1) True 1 4 0 (identity_block_params 2)))"
    using 1 by simp
  have 4: "TransformerBlock_init builds_all (int 2) (int 1) True 100 4 0 (identity_block_params 2)
      = Inr (projr (TransformerBlock_init builds_all (int 2) (int 1) True 100 4 0 (identity_block_params 2)))"
    using 2 by simp
  have 5: "shape x222 = [1, 2, 2]" "wf x222" by (simp_all add: x222_def wf_def)
  show ?thesis
    using 1 2 5 C10_seq_length_unused [OF 3 4 5, of True "\<lambda>i. True" "\<lambda>i. True"] by blast
qed

text \<open>
  C7: without the mask, for a constructed \<^verbatim>\<open>SelfAttention(e, h, mask=False)\<close>, every input of
  shape \<open>(b, t, e)\<close> and every permutation of the \<open>t\<close> sequence positions, the forward pass on
  the rearranged input returns the rearranged result of the forward pass on the input.
\<close>

theorem C7_permutation_equivariance:
  assumes init: "SelfAttention_init bd (int e) (int h) False P = Inr m"
    and sh: "shape x = [b, t, e]" and "wf x"
    and bij: "bij_betw f {0..<t} {0..<t}"
  shows "\<exists>y. SelfAttention_forward m x = Inr y \<and>
    SelfAttention_forward m (permute_positions f x) = Inr (permute_positions f y)"
proof -
  have ld: "layer_dims m e h" and nomask: "\<not> mask m"
    using SelfAttention_init_Inr [OF init] by simp_all
  let ?y = "\<lparr>shape = [b, t, e], data = tab3 b t e (attention_at m x)\<rparr>"
  have fx: "SelfAttention_forward m x = Inr ?y"
    using sh ld by (rule SelfAttention_forward_eq)
  have less: "f j < t" if "j < t" for j
    using bij_betwE [OF bij] that by auto
  have "shape (permute_positions f x) = [b, t, e]"
    using sh by (simp add: permute_positions_3d)
  then have "SelfAttention_forward m (permute_positions f x)
      = Inr \<lparr>shape = [b, t, e], data = tab3 b t e (attention_at m (permute_positions f x))\<rparr>"
    using ld by (rule SelfAttention_forward_eq)
  moreover have "tab3 b t e (attention_at m (permute_positions f x))
      = tab3 b t e (\<lambda>i j k. at3 t e (tab3 b t e (attention_at m x)) i (f j) k)"
    by (intro tab3_cong) (simp add: attention_at_perm [OF sh ld nomask bij] at3_tab3 less)
  ultimately have "SelfAttention_forward m (permute_positions f x) = Inr (permute_positions f ?y)"
    by (simp add: permute_positions_3d)
  with fx show ?thesis by blast
qed

theorem C7_permutation_equivariance_witness:
  "\<not> isl (SelfAttention_init builds_all (int 2) (int 1) False identity_attention_params) \<and>
   shape x222 = [1, 2, 2] \<and> wf x222 \<and> bij_betw swap01 {0..<2} {0..<2} \<and>
   (\<exists>y. SelfAttention_forward
           (projr (SelfAttention_init builds_all (int 2) (int 1) False identity_attention_params)) x222
         = Inr y \<and>
        SelfAttention_forward
           (projr (SelfAttention_init builds_all (int 2) (int 1) False identity_attention_params))
           (permute_positions swap01 x222)
         = Inr (permute_positions swap01 y))"
proof -
  have 1: "\<not> isl (SelfAttention_init builds_all (int 2) (int 1) False identity_attention_params)"
    by (simp add: isl_SelfAttention_init)
  then have 2: "SelfAttention_init builds_all (int 2) (int 1) False identity_attention_params
      = Inr (projr (SelfAttention_init builds_all (int 2) (int 1) False identity_attention_params))"
    by simp
  have 3: "shape x222 = [1, 2, 2]" "wf x222" by (simp_all add: x222_def wf_def)
  show ?thesis
    using 1 3 bij_swap01 C7_permutation_equivariance [OF 2 3 bij_swap01] by blast
qed

text \<open>
  C6, as stated: with weights for which the attention and feed-forward sublayers are
  identities, zero biases and dropout probability \<open>0\<close>, the block returns
  \<open>Normalize (Normalize X)\<close>.  The block of the scenario (width 4, identity weights, zero
  biases, \<^verbatim>\<open>dropout=0.0\<close>) on the input of shape \<open>(1, 3, 4)\<close> with rows \<open>(1, -1, 1, -1)\<close>: both
  sublayers return their input, the twice-normalized input is defined, and the block returns
  a different tensor.  The same holds for the one-row input of shape \<open>(1, 1, 4)\<close>, where the
  attention sublayer is the identity on every input (\<open>attention_identity_single_position\<close>);
  the feed-forward sublayer is the identity on every input (\<open>feed_forward_identity\<close>).  The
  normalization divides by \<open>sqrt (var + eps)\<close> with \<open>eps = 1e-5\<close>, so \<open>Normalize (2 X)\<close> is not
  \<open>Normalize X\<close>.
\<close>

theorem C6_twice_normalized_differs:
  "TransformerBlock_init builds_all (int 4) (int 1) False 3 4 0 (identity_block_params 4) = Inr block134 \<and>
   p (dropout block134) = 0 \<and>
   SelfAttention_forward (attention block134) x134 = Inr x134 \<and>
   Sequential_forward (ff block134) (Normalize (norm1 block134) (twice x134))
     = Inr (Normalize (norm1 block134) (twice x134)) \<and>
   \<not> isl (andthen (LayerNorm_forward (norm1 block134) x134) (LayerNorm_forward (norm2 block134))) \<and>
   TransformerBlock_forward block134 True (\<lambda>i. True) (\<lambda>i. True) x134
     \<noteq> andthen (LayerNorm_forward (norm1 block134) x134) (LayerNorm_forward (norm2 block134)) \<and>
   SelfAttention_forward (attention block134) x114 = Inr x114 \<and>
   Sequential_forward (ff block134) (Normalize (norm1 block134) (twice x114))
     = Inr (Normalize (norm1 block134) (twice x114)) \<and>
   TransformerBlock_forward block134 True (\<lambda>i. True) (\<lambda>i. True) x114
     \<noteq> andthen (LayerNorm_forward (norm1 block134) x114) (LayerNorm_forward (norm2 block134))"
proof -
  have p0: "p (dropout block134) = 0"
    using TransformerBlock_init_eq(6) [OF block134_init] by simp
  have ff: "Sequential_forward (ff block134) (Normalize (norm1 block134) (twice (alternating t 1)))
      = Inr (Normalize (norm1 block134) (twice (alternating t 1)))" for t
    by (simp only: twice_alternating Normalize_block134 block134_ff)
  have ok: "\<not> isl (andthen (LayerNorm_forward (norm1 block134) (alternating 3 1))
      (LayerNorm_forward (norm2 block134)))"
    by (simp only: block134_twice_normalized) simp
  show ?thesis
    unfolding x134_alternating x114_alternating
    using block134_init p0 block134_attention ff ok block134_differs [of 3] block134_differs [of 1]
    by simp
qed

text \<open>
  C6, amended: for a constructed block and an input \<open>X\<close> of shape \<open>(b, t, e)\<close> at which the
  attention sublayer returns \<open>X\<close> and the feed-forward sublayer returns its input
  \<open>Norm1 (X + X)\<close> unchanged, with dropout inactive (evaluation mode, or probability \<open>0\<close>), both
  normalizations return and the block returns \<open>Norm2 (X1 + X1)\<close> with \<open>X1 = Norm1 (X + X)\<close>,
  where \<open>Norm1\<close> and \<open>Norm2\<close> are the block's normalizations with \<open>eps = 1e-5\<close>.
\<close>

theorem C6_identity_sublayers:
  assumes "TransformerBlock_init bd (int e) (int h) msk sl mult q P = Inr B"
    and "shape x = [b, t, e]" and "wf x"
    and "SelfAttention_forward (attention B) x = Inr x"
    and "Sequential_forward (ff B) (Normalize (norm1 B) (twice x))
      = Inr (Normalize (norm1 B) (twice x))"
    and "\<not> tr \<or> q = 0"
  shows "LayerNorm_forward (norm1 B) (twice x) = Inr (Normalize (norm1 B) (twice x)) \<and>
    LayerNorm_forward (norm2 B) (twice (Normalize (norm1 B) (twice x)))
      = Inr (Normalize (norm2 B) (twice (Normalize (norm1 B) (twice x)))) \<and>
    TransformerBlock_forward B tr k1 k2 x
      = Inr (Normalize (norm2 B) (twice (Normalize (norm1 B) (twice x))))"
proof -
  note n = normalize_twice [OF assms(1,2)]
  have "p (dropout B) = q"
    using TransformerBlock_init_eq(6) [OF assms(1)] by simp
  then have "Dropout_forward (dropout B) tr k z = z" for k z
    using assms(6) by (intro Dropout_forward_id) auto
  then have "TransformerBlock_forward B tr k1 k2 x
      = Inr (Normalize (norm2 B) (twice (Normalize (norm1 B) (twice x))))"
    unfolding TransformerBlock_forward_def Let_def
    by (simp add: assms(4,5) tadd_self n)
  with n show ?thesis by simp
qed

theorem C6_identity_sublayers_witness:
  "TransformerBlock_init builds_all (int 4) (int 1) False 3 4 0 (identity_block_params 4) = Inr block134 \<and>
   shape x134 = [1, 3, 4] \<and> wf x134 \<and>
   SelfAttention_forward (attention block134) x134 = Inr x134 \<and>
   Sequential_forward (ff block134) (Normalize (norm1 block134) (twice x134))
     = Inr (Normalize (norm1 block134) (twice x134)) \<and>
   TransformerBlock_forward block134 True (\<lambda>i. True) (\<lambda>i. True) x134
     = Inr (Normalize (norm2 block134) (twice (Normalize (norm1 block134) (twice x134))))"
proof -
  have sh: "shape x134 = [1, 3, 4]" "wf x134"
    by (simp_all add: x134_def wf_def)
  have at: "SelfAttention_forward (attention block134) x134 = Inr x134"
    unfolding x134_alternating by (rule block134_attention)
  have ff: "Sequential_forward (ff block134) (Normalize (norm1 block134) (twice x134))
      = Inr (Normalize (norm1 block134) (twice x134))"
    by (simp only: x134_alternating twice_alternating Normalize_block134 block134_ff)
  have nd: "\<not> True \<or> (0::real) = 0" by simp
  show ?thesis
    using block134_init sh at ff
      C6_identity_sublayers [OF block134_init sh at ff nd, of "\<lambda>i. True" "\<lambda>i. True"]
    by blast
qed

end
